theory Spec2Isabelle
  imports Complex_Main
begin

section \<open>Hand tracking service: data model\<close>

text \<open>
  The embedding follows \<^verbatim>\<open>src/services/handTrackingService.ts\<close>. A JavaScript
  \<^verbatim>\<open>number\<close> that carries a coordinate, a distance or a scale is a \<^typ>\<open>real\<close>
  (rounding of IEEE doubles is not modelled); \<^verbatim>\<open>Date.now()\<close> is a whole number of
  milliseconds, an \<^typ>\<open>int\<close>. One call of \<^verbatim>\<open>detectLoop\<close> is one step: it takes the
  service's fields and what the browser answers during that call, and returns the
  updated fields, the calls made on the browser in their order, and whether a
  \<^verbatim>\<open>TypeError\<close> ended the call.
\<close>

record NormalizedLandmark =
  lm_x :: real
  lm_y :: real

datatype Gesture = OPEN | PINCH | FIST | POINT | SCROLL

record CursorState =
  cs_x :: real
  cs_y :: real
  isDown :: bool
  gesture :: Gesture

text \<open>
  An element of the host document, with what \<^verbatim>\<open>getScrollParent\<close> reads from it:
  whether it is an \<^verbatim>\<open>HTMLElement\<close>, its computed overflow, its scroll and client
  boxes and its parent.
\<close>

datatype Element = Element
  (elementId: nat)
  (isHTMLElement: bool)
  (overflowY: string)
  (overflowX: string)
  (scrollHeight: int)
  (clientHeight: int)
  (scrollWidth: int)
  (clientWidth: int)
  (parentElement: "Element option")

datatype Event =
    PointerEvent (eventType: string) (clientX: real) (clientY: real)
      (pressure: real) (button: int) (buttons: int)
  | WheelEvent (clientX: real) (clientY: real) (deltaY: real)
  | MouseEvent (eventType: string) (clientX: real) (clientY: real)

record Video =
  videoId :: nat
  srcObject :: "nat list option"

datatype Effect =
    DispatchEvent Element Event
  | ScrollBy Element real real
  | Callback nat CursorState
  | RequestAnimationFrame
  | CancelAnimationFrame nat
  | StopTrack nat
  | RemoveVideo nat
  | CloseLandmarker nat

datatype Error = TypeError

record HandTrackingService =
  handLandmarker :: "nat option"
  video :: "Video option"
  animationId :: "nat option"
  lastVideoTime :: real
  callback :: "nat option"
  cursorX :: real
  cursorY :: real
  targetX :: real
  targetY :: real
  wasPinching :: bool
  pinchStartTime :: int
  isScrolling :: bool
  lastScrollX :: real
  lastScrollY :: real
  lastHandScale :: real

text \<open>
  \<^verbatim>\<open>smoothing\<close> and \<^verbatim>\<open>zoomSensitivity\<close> are private fields with an initialiser
  and no assignment anywhere in the class.
\<close>

definition smoothing :: real where
  "smoothing = 0.2"

definition zoomSensitivity :: real where
  "zoomSensitivity = 3000"

text \<open>
  What the browser answers during one call of \<^verbatim>\<open>detectLoop\<close>: the video's
  \<^verbatim>\<open>currentTime\<close>, the detector's \<^verbatim>\<open>result.landmarks\<close> (\<open>None\<close> when it is
  undefined), \<^verbatim>\<open>Date.now()\<close>, the window's inner size, the hit test
  \<^verbatim>\<open>document.elementFromPoint\<close> and the handle \<^verbatim>\<open>requestAnimationFrame\<close> returns.
  The document is taken as fixed during the call, and the handlers that a dispatched
  event, a \<^verbatim>\<open>scrollBy\<close> or the host callback runs are outside the model: each such
  call is recorded and returns.
\<close>

record Frame =
  currentTime :: real
  resultLandmarks :: "NormalizedLandmark list list option"
  dateNow :: int
  innerWidth :: real
  innerHeight :: real
  elementFromPoint :: "real \<Rightarrow> real \<Rightarrow> Element option"
  requestId :: nat

record Outcome =
  engine :: HandTrackingService
  effects :: "Effect list"
  raised :: "Error option"

text \<open>The field initialisers of the class, for a window of the given inner size.\<close>

definition initialService :: "real \<Rightarrow> real \<Rightarrow> HandTrackingService" where
  "initialService w h =
     \<lparr> handLandmarker = None, video = None, animationId = None,
       lastVideoTime = - 1, callback = None,
       cursorX = w / 2, cursorY = h / 2, targetX = w / 2, targetY = h / 2,
       wasPinching = False, pinchStartTime = 0, isScrolling = False,
       lastScrollX = 0, lastScrollY = 0, lastHandScale = 0 \<rparr>"

section \<open>Event synthesis\<close>

definition dispatchPointerEvent :: "Frame \<Rightarrow> string \<Rightarrow> real \<Rightarrow> real \<Rightarrow> int \<Rightarrow> Effect list" where
  "dispatchPointerEvent f type px py btns =
     (case elementFromPoint f px py of
        Some element \<Rightarrow>
          [DispatchEvent element
             (PointerEvent type px py (if btns \<noteq> 0 then 0.5 else 0)
                (if btns \<noteq> 0 then 0 else - 1) btns)]
      | None \<Rightarrow> [])"

definition dispatchWheelEvent :: "Frame \<Rightarrow> real \<Rightarrow> real \<Rightarrow> real \<Rightarrow> Effect list" where
  "dispatchWheelEvent f px py dy =
     (case elementFromPoint f px py of
        Some element \<Rightarrow> [DispatchEvent element (WheelEvent px py dy)]
      | None \<Rightarrow> [])"

definition dispatchClickEvent :: "Frame \<Rightarrow> real \<Rightarrow> real \<Rightarrow> Effect list" where
  "dispatchClickEvent f px py =
     (case elementFromPoint f px py of
        Some element \<Rightarrow> [DispatchEvent element (MouseEvent ''click'' px py)]
      | None \<Rightarrow> [])"

section \<open>Scroll target resolution\<close>

definition isScrollable :: "Element \<Rightarrow> bool" where
  "isScrollable node \<longleftrightarrow>
     (overflowY node \<noteq> ''visible'' \<and> overflowY node \<noteq> ''hidden'') \<or>
     (overflowX node \<noteq> ''visible'' \<and> overflowX node \<noteq> ''hidden'')"

fun getScrollParent :: "Element option \<Rightarrow> Element option" where
  "getScrollParent None = None"
| "getScrollParent (Some (Element i html oy ox sh ch sw cw parent)) =
     (let node = Element i html oy ox sh ch sw cw parent in
      if html \<and> isScrollable node \<and> (sh > ch \<or> sw > cw) then Some node
      else getScrollParent parent)"

section \<open>The frame loop\<close>

text \<open>The three numbered blocks of the pinch interaction logic, in the source's order.\<close>

definition pinchStart ::
  "Frame \<Rightarrow> bool \<Rightarrow> real \<Rightarrow> HandTrackingService \<Rightarrow> HandTrackingService \<times> Effect list" where
  "pinchStart f isPinching currentScale s =
     (if isPinching \<and> \<not> wasPinching s then
        (s\<lparr> pinchStartTime := dateNow f, isScrolling := False,
            lastScrollX := cursorX s, lastScrollY := cursorY s,
            lastHandScale := currentScale \<rparr>,
         dispatchPointerEvent f ''pointerdown'' (cursorX s) (cursorY s) 1)
      else (s, []))"

definition panScroll :: "Frame \<Rightarrow> HandTrackingService \<Rightarrow> Effect list" where
  "panScroll f s =
     (let deltaX = cursorX s - lastScrollX s;
          deltaY = cursorY s - lastScrollY s
      in if \<bar>deltaX\<bar> > 1 \<or> \<bar>deltaY\<bar> > 1 then
           (case getScrollParent (elementFromPoint f (cursorX s) (cursorY s)) of
              Some scrollable \<Rightarrow> [ScrollBy scrollable (deltaX * - 1.5) (deltaY * - 1.5)]
            | None \<Rightarrow> [])
         else [])"

definition zoomWheel :: "Frame \<Rightarrow> real \<Rightarrow> HandTrackingService \<Rightarrow> Effect list" where
  "zoomWheel f currentScale s =
     (let scaleDelta = currentScale - lastHandScale s
      in if \<bar>scaleDelta\<bar> > 0.002 then
           (let wheelDelta = - scaleDelta * zoomSensitivity
            in dispatchWheelEvent f (cursorX s) (cursorY s) wheelDelta)
         else [])"

definition pinchHold ::
  "Frame \<Rightarrow> bool \<Rightarrow> real \<Rightarrow> Gesture \<Rightarrow> HandTrackingService \<Rightarrow>
     HandTrackingService \<times> Effect list \<times> Gesture" where
  "pinchHold f isPinching currentScale g s =
     (if isPinching \<and> wasPinching s then
        (let duration = dateNow f - pinchStartTime s;
             (s1, es, g1) =
               (if duration > 2000 then
                  (s\<lparr> isScrolling := True \<rparr>, panScroll f s @ zoomWheel f currentScale s, SCROLL)
                else (s, [], g))
         in (s1\<lparr> lastScrollX := cursorX s1, lastScrollY := cursorY s1,
                 lastHandScale := currentScale \<rparr>, es, g1))
      else (s, [], g))"

definition pinchRelease ::
  "Frame \<Rightarrow> bool \<Rightarrow> HandTrackingService \<Rightarrow> HandTrackingService \<times> Effect list" where
  "pinchRelease f isPinching s =
     (if \<not> isPinching \<and> wasPinching s then
        (let duration = dateNow f - pinchStartTime s
         in (s\<lparr> isScrolling := False \<rparr>,
             dispatchPointerEvent f ''pointerup'' (cursorX s) (cursorY s) 0 @
             (if \<not> isScrolling s \<and> duration > 200 \<and> duration < 1800
              then dispatchClickEvent f (cursorX s) (cursorY s) else [])))
      else (s, []))"

text \<open>
  The body of \<^verbatim>\<open>detectLoop\<close> for the first detected hand, in the source's
  order: the mirrored raw target and the smoothing of the cursor (lines 99 to 109),
  the pinch distance (lines 112 to 114), the hand scale (lines 121 to 126), and the
  dispatches and the pinch logic (lines 128 to 216).
\<close>

definition smoothCursor :: "HandTrackingService \<Rightarrow> Frame \<Rightarrow> NormalizedLandmark \<Rightarrow> HandTrackingService" where
  "smoothCursor s f indexTip =
     (let rawX = (1 - lm_x indexTip) * innerWidth f;
          rawY = lm_y indexTip * innerHeight f;
          s1 = s\<lparr> targetX := rawX, targetY := rawY \<rparr>;
          s2 = s1\<lparr> cursorX := cursorX s1 + (targetX s1 - cursorX s1) * smoothing \<rparr>
      in s2\<lparr> cursorY := cursorY s2 + (targetY s2 - cursorY s2) * smoothing \<rparr>)"

definition pinchDistance :: "NormalizedLandmark \<Rightarrow> NormalizedLandmark \<Rightarrow> real" where
  "pinchDistance indexTip thumbTip =
     (let dx = lm_x indexTip - lm_x thumbTip;
          dy = lm_y indexTip - lm_y thumbTip
      in sqrt (dx * dx + dy * dy))"

definition handScale :: "NormalizedLandmark \<Rightarrow> NormalizedLandmark \<Rightarrow> real" where
  "handScale wrist middleMCP =
     sqrt ((lm_x middleMCP - lm_x wrist) ^ 2 + (lm_y middleMCP - lm_y wrist) ^ 2)"

definition sendUpdate :: "HandTrackingService \<Rightarrow> bool \<Rightarrow> Gesture \<Rightarrow> Effect list" where
  "sendUpdate s isPinching g =
     (case callback s of
        Some cb \<Rightarrow>
          [Callback cb \<lparr> cs_x = cursorX s, cs_y = cursorY s, isDown = isPinching, gesture = g \<rparr>]
      | None \<Rightarrow> [])"

definition interact :: "HandTrackingService \<Rightarrow> Frame \<Rightarrow> bool \<Rightarrow> real \<Rightarrow> Outcome" where
  "interact s f isPinching currentScale =
     (let g0 = (if isPinching then PINCH else OPEN);
          e0 = dispatchPointerEvent f ''pointermove'' (cursorX s) (cursorY s)
                 (if isPinching then 1 else 0);
          (s1, e1) = pinchStart f isPinching currentScale s;
          (s2, e2, g1) = pinchHold f isPinching currentScale g0 s1;
          (s3, e3) = pinchRelease f isPinching s2;
          s4 = s3\<lparr> wasPinching := isPinching \<rparr>;
          e4 = sendUpdate s4 isPinching g1
      in \<lparr> engine = s4, effects = e0 @ e1 @ e2 @ e3 @ e4, raised = None \<rparr>)"

text \<open>
  Reading \<^verbatim>\<open>.x\<close> of a landmark the array does not have raises a \<^verbatim>\<open>TypeError\<close>:
  for the index tip (landmark 8) before any field is written, for the middle-finger
  base (landmark 9) after the targets and the cursor are written and before any
  dispatch.
\<close>

definition processHand :: "HandTrackingService \<Rightarrow> Frame \<Rightarrow> NormalizedLandmark list \<Rightarrow> Outcome" where
  "processHand s f landmarks =
     (if length landmarks \<le> 8 then \<lparr> engine = s, effects = [], raised = Some TypeError \<rparr>
      else
        let indexTip = landmarks ! 8;
            thumbTip = landmarks ! 4;
            s1 = smoothCursor s f indexTip;
            isPinching = (pinchDistance indexTip thumbTip < 0.06)
        in if length landmarks \<le> 9 then \<lparr> engine = s1, effects = [], raised = Some TypeError \<rparr>
           else
             let wrist = landmarks ! 0;
                 middleMCP = landmarks ! 9;
                 currentScale = handScale wrist middleMCP
             in interact s1 f isPinching currentScale)"

text \<open>The last statement of \<^verbatim>\<open>detectLoop\<close>: schedule the next call and keep its handle.\<close>

definition schedule :: "Frame \<Rightarrow> HandTrackingService \<Rightarrow> Effect list \<Rightarrow> Outcome" where
  "schedule f s es =
     \<lparr> engine = s\<lparr> animationId := Some (requestId f) \<rparr>,
       effects = es @ [RequestAnimationFrame], raised = None \<rparr>"

definition detectLoop :: "HandTrackingService \<Rightarrow> Frame \<Rightarrow> Outcome" where
  "detectLoop s f =
     (if video s \<noteq> None \<and> handLandmarker s \<noteq> None then
        if currentTime f \<noteq> lastVideoTime s then
          (let s0 = s\<lparr> lastVideoTime := currentTime f \<rparr>
           in case resultLandmarks f of
                Some (landmarks # rest) \<Rightarrow>
                  (let r = processHand s0 f landmarks
                   in case raised r of
                        None \<Rightarrow> schedule f (engine r) (effects r)
                      | Some err \<Rightarrow> r)
              | Some [] \<Rightarrow> schedule f s0 []
              | None \<Rightarrow> schedule f s0 [])
        else schedule f s []
      else schedule f s [])"

section \<open>Teardown\<close>

definition disconnect :: "HandTrackingService \<Rightarrow> HandTrackingService \<times> Effect list" where
  "disconnect s =
     (let e1 = (case animationId s of
                  Some a \<Rightarrow> if a \<noteq> 0 then [CancelAnimationFrame a] else []
                | None \<Rightarrow> []);
          (s1, e2) = (case video s of
                        Some v \<Rightarrow>
                          (s\<lparr> video := None \<rparr>,
                           (case srcObject v of
                              Some stream \<Rightarrow> map StopTrack stream
                            | None \<Rightarrow> []) @ [RemoveVideo (videoId v)])
                      | None \<Rightarrow> (s, []));
          e3 = (case handLandmarker s1 of
                  Some h \<Rightarrow> [CloseLandmarker h]
                | None \<Rightarrow> [])
      in (s1\<lparr> handLandmarker := None \<rparr>, e1 @ e2 @ e3))"

section \<open>Runs of the frame loop\<close>

text \<open>
  The browser calls \<^verbatim>\<open>detectLoop\<close> once per animation frame, as long as the call
  before scheduled the next one: a call that raised did not.
\<close>

fun runFrames :: "HandTrackingService \<Rightarrow> Frame list \<Rightarrow> Outcome" where
  "runFrames s [] = \<lparr> engine = s, effects = [], raised = None \<rparr>"
| "runFrames s (f # fs) =
     (let r = detectLoop s f
      in case raised r of
           Some err \<Rightarrow> r
         | None \<Rightarrow>
             (let r' = runFrames (engine r) fs
              in r'\<lparr> effects := effects r @ effects r' \<rparr>))"

section \<open>Observations on a frame\<close>

text \<open>The first detected hand of a frame, as \<^verbatim>\<open>detectLoop\<close> selects it.\<close>

definition firstHand :: "Frame \<Rightarrow> NormalizedLandmark list option" where
  "firstHand f =
     (case resultLandmarks f of Some (landmarks # rest) \<Rightarrow> Some landmarks | _ \<Rightarrow> None)"

definition noHand :: "Frame \<Rightarrow> bool" where
  "noHand f \<longleftrightarrow> firstHand f = None"

text \<open>
  A frame that \<^verbatim>\<open>detectLoop\<close> processes with a detected hand: the camera and the
  detector are there, the video has advanced, and the first hand has its landmarks
  0 to 9.
\<close>

definition handDetected :: "HandTrackingService \<Rightarrow> Frame \<Rightarrow> NormalizedLandmark list \<Rightarrow> bool" where
  "handDetected s f landmarks \<longleftrightarrow>
     video s \<noteq> None \<and> handLandmarker s \<noteq> None \<and> currentTime f \<noteq> lastVideoTime s \<and>
     firstHand f = Some landmarks \<and> 9 < length landmarks"

fun isClick :: "Effect \<Rightarrow> bool" where
  "isClick (DispatchEvent element (MouseEvent type px py)) = (type = ''click'')"
| "isClick other = False"

fun isWheel :: "Effect \<Rightarrow> bool" where
  "isWheel (DispatchEvent element (WheelEvent px py dy)) = True"
| "isWheel other = False"

fun isScrollBy :: "Effect \<Rightarrow> bool" where
  "isScrollBy (ScrollBy element px py) = True"
| "isScrollBy other = False"

fun reportedGesture :: "Effect \<Rightarrow> Gesture option" where
  "reportedGesture (Callback cb c) = Some (gesture c)"
| "reportedGesture other = None"

text \<open>
  The scroll target in the words of the specification: walking up from an element
  through its parents, the nearest one that is a container whose computed overflow
  allows scrolling (on either axis, a value other than \<^verbatim>\<open>visible\<close> and \<^verbatim>\<open>hidden\<close>)
  and whose content exceeds its visible box on at least one axis. \<open>ancestorChain\<close>
  lists an element, its parent, the parent of that, and so on to the root.
\<close>

fun ancestorChain :: "Element option \<Rightarrow> Element list" where
  "ancestorChain None = []"
| "ancestorChain (Some (Element i html oy ox sh ch sw cw parent)) =
     Element i html oy ox sh ch sw cw parent # ancestorChain parent"

definition scrollCandidate :: "Element \<Rightarrow> bool" where
  "scrollCandidate a \<longleftrightarrow>
     isHTMLElement a \<and>
     (overflowY a \<notin> {''visible'', ''hidden''} \<or> overflowX a \<notin> {''visible'', ''hidden''}) \<and>
     (clientHeight a < scrollHeight a \<or> clientWidth a < scrollWidth a)"

text \<open>Whether \<^verbatim>\<open>detectLoop\<close> runs the detector on the frame.\<close>

definition processed :: "HandTrackingService \<Rightarrow> Frame \<Rightarrow> bool" where
  "processed s f \<longleftrightarrow>
     video s \<noteq> None \<and> handLandmarker s \<noteq> None \<and> currentTime f \<noteq> lastVideoTime s"

text \<open>A frame that does not end a pinch: it shows no hand, or a hand that pinches.\<close>

definition pinchContinues :: "Frame \<Rightarrow> bool" where
  "pinchContinues f \<longleftrightarrow>
     (case firstHand f of
        None \<Rightarrow> True
      | Some landmarks \<Rightarrow>
          9 < length landmarks \<and> pinchDistance (landmarks ! 8) (landmarks ! 4) < 0.06)"

text \<open>A frame whose hand, if it shows one, puts the raw target at the given point.\<close>

definition aimsAt :: "Frame \<Rightarrow> real \<Rightarrow> real \<Rightarrow> bool" where
  "aimsAt f tx ty \<longleftrightarrow>
     (case firstHand f of
        None \<Rightarrow> True
      | Some landmarks \<Rightarrow>
          8 < length landmarks \<longrightarrow>
          (1 - lm_x (landmarks ! 8)) * innerWidth f = tx \<and>
          lm_y (landmarks ! 8) * innerHeight f = ty)"

section \<open>Example inputs\<close>

text \<open>
  A scrollable panel with a button in it, a service as a successful \<^verbatim>\<open>connect\<close>
  leaves it before its first frame (callback, detector and camera set, in a window
  of 1000 by 800), and hands of 21 landmarks: all landmarks at the centre of the image
  (a pinch of distance 0 and scale 0), and variations of it.
\<close>

definition scrollPanel :: Element where
  "scrollPanel = Element 1 True ''auto'' ''visible'' 2000 600 800 800 None"

definition panelButton :: Element where
  "panelButton = Element 2 True ''visible'' ''visible'' 40 40 100 100 (Some scrollPanel)"

definition connectedService :: HandTrackingService where
  "connectedService =
     (initialService 1000 800)
       \<lparr> handLandmarker := Some 1,
         video := Some \<lparr> videoId = 1, srcObject = Some [1] \<rparr>,
         callback := Some 1 \<rparr>"

definition pinchedHand :: "NormalizedLandmark list" where
  "pinchedHand = replicate 21 \<lparr> lm_x = 1 / 2, lm_y = 1 / 2 \<rparr>"

definition openHand :: "NormalizedLandmark list" where
  "openHand = pinchedHand[4 := \<lparr> lm_x = 1 / 2, lm_y = 1 / 5 \<rparr>]"

definition boundaryHand :: "NormalizedLandmark list" where
  "boundaryHand = pinchedHand[4 := \<lparr> lm_x = 0.56, lm_y = 1 / 2 \<rparr>]"

definition nearHand :: "NormalizedLandmark list" where
  "nearHand = pinchedHand[0 := \<lparr> lm_x = 1 / 2, lm_y = 3 / 5 \<rparr>]"

definition movedHand :: "NormalizedLandmark list" where
  "movedHand = replicate 21 \<lparr> lm_x = 2 / 5, lm_y = 1 / 2 \<rparr>"

definition exampleFrame :: "real \<Rightarrow> int \<Rightarrow> NormalizedLandmark list \<Rightarrow> Frame" where
  "exampleFrame t now landmarks =
     \<lparr> currentTime = t, resultLandmarks = Some [landmarks], dateNow = now,
       innerWidth = 1000, innerHeight = 800,
       elementFromPoint = (\<lambda>px py. Some panelButton), requestId = 7 \<rparr>"

definition emptyFrame :: "real \<Rightarrow> int \<Rightarrow> Frame" where
  "emptyFrame t now =
     \<lparr> currentTime = t, resultLandmarks = Some [], dateNow = now,
       innerWidth = 1000, innerHeight = 800,
       elementFromPoint = (\<lambda>px py. Some panelButton), requestId = 7 \<rparr>"

definition offDocument :: "Frame \<Rightarrow> Frame" where
  "offDocument f = f\<lparr> elementFromPoint := (\<lambda>px py. None) \<rparr>"

text \<open>
  Elements for the scroll target: an SVG icon (not an \<^verbatim>\<open>HTMLElement\<close>) in a label
  whose content overflows but whose overflow is \<^verbatim>\<open>visible\<close> and \<^verbatim>\<open>hidden\<close>, in a box
  that may scroll but whose content fits, in the scrollable panel; and a text in a
  page with no scrollable ancestor at all.
\<close>

definition fittingBox :: Element where
  "fittingBox = Element 5 True ''scroll'' ''scroll'' 40 40 100 100 (Some scrollPanel)"

definition clippedLabel :: Element where
  "clippedLabel = Element 4 True ''visible'' ''hidden'' 60 40 100 100 (Some fittingBox)"

definition svgIcon :: Element where
  "svgIcon = Element 3 False ''auto'' ''auto'' 500 20 500 20 (Some clippedLabel)"

definition plainPage :: Element where
  "plainPage = Element 6 True ''visible'' ''visible'' 2000 600 800 800 None"

definition plainText :: Element where
  "plainText = Element 7 True ''hidden'' ''visible'' 50 20 80 80 (Some plainPage)"

definition overElement :: "Element \<Rightarrow> Frame \<Rightarrow> Frame" where
  "overElement el f = f\<lparr> elementFromPoint := (\<lambda>px py. Some el) \<rparr>"

text \<open>The service after a first frame that starts a pinch at time 1000.\<close>

definition pressedService :: HandTrackingService where
  "pressedService = engine (detectLoop connectedService (exampleFrame 1 1000 pinchedHand))"

section \<open>The pinch blocks, case by case\<close>

lemma pinchStart_yes:
  "isP \<Longrightarrow> \<not> wasPinching s \<Longrightarrow>
   pinchStart f isP c s =
     (s\<lparr> pinchStartTime := dateNow f, isScrolling := False,
         lastScrollX := cursorX s, lastScrollY := cursorY s, lastHandScale := c \<rparr>,
      dispatchPointerEvent f ''pointerdown'' (cursorX s) (cursorY s) 1)"
  by (simp add: pinchStart_def)

lemma pinchStart_no:
  "\<not> isP \<or> wasPinching s \<Longrightarrow> pinchStart f isP c s = (s, [])"
  by (auto simp add: pinchStart_def)

lemma pinchHold_no:
  "\<not> isP \<or> \<not> wasPinching s \<Longrightarrow> pinchHold f isP c g s = (s, [], g)"
  by (auto simp add: pinchHold_def)

lemma pinchHold_yes:
  "isP \<Longrightarrow> wasPinching s \<Longrightarrow>
   pinchHold f isP c g s =
     (if dateNow f - pinchStartTime s > 2000 then
        (s\<lparr> isScrolling := True, lastScrollX := cursorX s, lastScrollY := cursorY s,
            lastHandScale := c \<rparr>,
         panScroll f s @ zoomWheel f c s, SCROLL)
      else
        (s\<lparr> lastScrollX := cursorX s, lastScrollY := cursorY s, lastHandScale := c \<rparr>, [], g))"
  by (simp add: pinchHold_def Let_def)

lemma pinchRelease_no:
  "isP \<or> \<not> wasPinching s \<Longrightarrow> pinchRelease f isP s = (s, [])"
  by (auto simp add: pinchRelease_def)

lemma pinchRelease_yes:
  "\<not> isP \<Longrightarrow> wasPinching s \<Longrightarrow>
   pinchRelease f isP s =
     (s\<lparr> isScrolling := False \<rparr>,
      dispatchPointerEvent f ''pointerup'' (cursorX s) (cursorY s) 0 @
      (if \<not> isScrolling s \<and> dateNow f - pinchStartTime s > 200 \<and>
          dateNow f - pinchStartTime s < 1800
       then dispatchClickEvent f (cursorX s) (cursorY s) else []))"
  by (simp add: pinchRelease_def Let_def)

lemma interact_start:
  "\<not> wasPinching s \<Longrightarrow>
   interact s f True c =
     \<lparr> engine = s\<lparr> pinchStartTime := dateNow f, isScrolling := False,
                    lastScrollX := cursorX s, lastScrollY := cursorY s,
                    lastHandScale := c, wasPinching := True \<rparr>,
       effects = dispatchPointerEvent f ''pointermove'' (cursorX s) (cursorY s) 1 @
                 dispatchPointerEvent f ''pointerdown'' (cursorX s) (cursorY s) 1 @
                 sendUpdate s True PINCH,
       raised = None \<rparr>"
  by (simp add: interact_def pinchStart_yes pinchHold_no pinchRelease_no sendUpdate_def Let_def
      split: option.splits)

lemma interact_hold:
  "wasPinching s \<Longrightarrow>
   interact s f True c =
     (if dateNow f - pinchStartTime s > 2000 then
        \<lparr> engine = s\<lparr> isScrolling := True, lastScrollX := cursorX s, lastScrollY := cursorY s,
                       lastHandScale := c, wasPinching := True \<rparr>,
          effects = dispatchPointerEvent f ''pointermove'' (cursorX s) (cursorY s) 1 @
                    panScroll f s @ zoomWheel f c s @ sendUpdate s True SCROLL,
          raised = None \<rparr>
      else
        \<lparr> engine = s\<lparr> lastScrollX := cursorX s, lastScrollY := cursorY s,
                       lastHandScale := c, wasPinching := True \<rparr>,
          effects = dispatchPointerEvent f ''pointermove'' (cursorX s) (cursorY s) 1 @
                    sendUpdate s True PINCH,
          raised = None \<rparr>)"
  by (simp add: interact_def pinchStart_no pinchHold_yes pinchRelease_no sendUpdate_def Let_def
      split: option.splits)

lemma interact_release:
  "wasPinching s \<Longrightarrow>
   interact s f False c =
     \<lparr> engine = s\<lparr> isScrolling := False, wasPinching := False \<rparr>,
       effects = dispatchPointerEvent f ''pointermove'' (cursorX s) (cursorY s) 0 @
                 dispatchPointerEvent f ''pointerup'' (cursorX s) (cursorY s) 0 @
                 (if \<not> isScrolling s \<and> dateNow f - pinchStartTime s > 200 \<and>
                     dateNow f - pinchStartTime s < 1800
                  then dispatchClickEvent f (cursorX s) (cursorY s) else []) @
                 sendUpdate s False OPEN,
       raised = None \<rparr>"
  by (simp add: interact_def pinchStart_no pinchHold_no pinchRelease_yes sendUpdate_def Let_def
      split: option.splits)

lemma interact_idle:
  "\<not> wasPinching s \<Longrightarrow>
   interact s f False c =
     \<lparr> engine = s\<lparr> wasPinching := False \<rparr>,
       effects = dispatchPointerEvent f ''pointermove'' (cursorX s) (cursorY s) 0 @
                 sendUpdate s False OPEN,
       raised = None \<rparr>"
  by (simp add: interact_def pinchStart_no pinchHold_no pinchRelease_no sendUpdate_def Let_def
      split: option.splits)

lemmas interact_simps = interact_start interact_hold interact_release interact_idle

lemma raised_interact: "raised (interact s f p c) = None"
  by (cases p; cases "wasPinching s") (simp_all add: interact_simps)

lemma interact_wasPinching: "wasPinching (engine (interact s f p c)) = p"
  by (cases p; cases "wasPinching s") (simp_all add: interact_simps)

lemma interact_cursor:
  "cursorX (engine (interact s f p c)) = cursorX s"
  "cursorY (engine (interact s f p c)) = cursorY s"
  "targetX (engine (interact s f p c)) = targetX s"
  "targetY (engine (interact s f p c)) = targetY s"
  by ((cases p; cases "wasPinching s"), simp_all add: interact_simps)+

section \<open>The smoothing step\<close>

lemma smoothCursor_cursorX:
  "cursorX (smoothCursor s f tip) =
     cursorX s + ((1 - lm_x tip) * innerWidth f - cursorX s) * smoothing"
  by (simp add: smoothCursor_def Let_def)

lemma smoothCursor_cursorY:
  "cursorY (smoothCursor s f tip) =
     cursorY s + (lm_y tip * innerHeight f - cursorY s) * smoothing"
  by (simp add: smoothCursor_def Let_def)

lemma smoothCursor_target:
  "targetX (smoothCursor s f tip) = (1 - lm_x tip) * innerWidth f"
  "targetY (smoothCursor s f tip) = lm_y tip * innerHeight f"
  by (simp_all add: smoothCursor_def Let_def)

lemma smoothCursor_session:
  "wasPinching (smoothCursor s f tip) = wasPinching s"
  "pinchStartTime (smoothCursor s f tip) = pinchStartTime s"
  "isScrolling (smoothCursor s f tip) = isScrolling s"
  "lastScrollX (smoothCursor s f tip) = lastScrollX s"
  "lastScrollY (smoothCursor s f tip) = lastScrollY s"
  "lastHandScale (smoothCursor s f tip) = lastHandScale s"
  "callback (smoothCursor s f tip) = callback s"
  by (simp_all add: smoothCursor_def Let_def)

lemma pinchDistance_euclid:
  "pinchDistance a b = sqrt ((lm_x a - lm_x b)\<^sup>2 + (lm_y a - lm_y b)\<^sup>2)"
  by (simp add: pinchDistance_def Let_def power2_eq_square)

section \<open>One call of the loop\<close>

lemma detectLoop_noHand:
  "firstHand f = None \<Longrightarrow>
   detectLoop s f =
     schedule f (if video s \<noteq> None \<and> handLandmarker s \<noteq> None \<and>
                    currentTime f \<noteq> lastVideoTime s
                 then s\<lparr>lastVideoTime := currentTime f\<rparr> else s) []"
  by (auto simp: detectLoop_def firstHand_def Let_def split: option.splits list.splits)

lemma processHand_ok:
  "9 < length lm \<Longrightarrow>
   processHand s f lm =
     interact (smoothCursor s f (lm ! 8)) f (pinchDistance (lm ! 8) (lm ! 4) < 0.06)
       (handScale (lm ! 0) (lm ! 9))"
  by (simp add: processHand_def Let_def)

text \<open>The state the pinch logic of a frame starts from: the video time and the smoothed cursor are written.\<close>

lemma detectLoop_hand:
  assumes "handDetected s f lm"
  shows "detectLoop s f =
     (let r = interact (smoothCursor (s\<lparr>lastVideoTime := currentTime f\<rparr>) f (lm ! 8)) f
                (pinchDistance (lm ! 8) (lm ! 4) < 0.06) (handScale (lm ! 0) (lm ! 9))
      in schedule f (engine r) (effects r))"
  using assms
  by (auto simp: detectLoop_def handDetected_def firstHand_def processHand_ok raised_interact
      Let_def split: option.splits list.splits)

lemma detectLoop_hand_engine:
  "handDetected s f lm \<Longrightarrow>
   engine (detectLoop s f) =
     (engine (interact (smoothCursor (s\<lparr>lastVideoTime := currentTime f\<rparr>) f (lm ! 8)) f
                (pinchDistance (lm ! 8) (lm ! 4) < 0.06) (handScale (lm ! 0) (lm ! 9))))
     \<lparr> animationId := Some (requestId f) \<rparr>"
  by (simp add: detectLoop_hand schedule_def Let_def)

lemma detectLoop_hand_effects:
  "handDetected s f lm \<Longrightarrow>
   effects (detectLoop s f) =
     effects (interact (smoothCursor (s\<lparr>lastVideoTime := currentTime f\<rparr>) f (lm ! 8)) f
                (pinchDistance (lm ! 8) (lm ! 4) < 0.06) (handScale (lm ! 0) (lm ! 9)))
     @ [RequestAnimationFrame]"
  by (simp add: detectLoop_hand schedule_def Let_def)

lemma detectLoop_hand_raised:
  "handDetected s f lm \<Longrightarrow> raised (detectLoop s f) = None"
  by (simp add: detectLoop_hand schedule_def Let_def)

section \<open>Filtering the effects of a frame\<close>

lemma filter_dispatchPointerEvent:
  "filter isClick (dispatchPointerEvent f t px py b) = []"
  "filter isWheel (dispatchPointerEvent f t px py b) = []"
  "filter isScrollBy (dispatchPointerEvent f t px py b) = []"
  "List.map_filter reportedGesture (dispatchPointerEvent f t px py b) = []"
  by (simp_all add: dispatchPointerEvent_def split: option.splits)

lemma filter_dispatchClickEvent:
  "filter isClick (dispatchClickEvent f px py) = dispatchClickEvent f px py"
  "filter isWheel (dispatchClickEvent f px py) = []"
  "filter isScrollBy (dispatchClickEvent f px py) = []"
  "List.map_filter reportedGesture (dispatchClickEvent f px py) = []"
  by (simp_all add: dispatchClickEvent_def split: option.splits)

lemma filter_dispatchWheelEvent:
  "filter isClick (dispatchWheelEvent f px py dy) = []"
  "filter isWheel (dispatchWheelEvent f px py dy) = dispatchWheelEvent f px py dy"
  "filter isScrollBy (dispatchWheelEvent f px py dy) = []"
  "List.map_filter reportedGesture (dispatchWheelEvent f px py dy) = []"
  by (simp_all add: dispatchWheelEvent_def split: option.splits)

lemma filter_sendUpdate:
  "filter isClick (sendUpdate s p g) = []"
  "filter isWheel (sendUpdate s p g) = []"
  "filter isScrollBy (sendUpdate s p g) = []"
  "List.map_filter reportedGesture (sendUpdate s p g) =
     (case callback s of Some cb \<Rightarrow> [g] | None \<Rightarrow> [])"
  by (simp_all add: sendUpdate_def split: option.splits)

lemma filter_panScroll:
  "filter isClick (panScroll f s) = []"
  "filter isWheel (panScroll f s) = []"
  "filter isScrollBy (panScroll f s) = panScroll f s"
  "List.map_filter reportedGesture (panScroll f s) = []"
  by (simp_all add: panScroll_def Let_def split: option.split del: filter_True filter_False)

lemma filter_zoomWheel:
  "filter isClick (zoomWheel f c s) = []"
  "filter isWheel (zoomWheel f c s) = zoomWheel f c s"
  "filter isScrollBy (zoomWheel f c s) = []"
  "List.map_filter reportedGesture (zoomWheel f c s) = []"
  by (auto simp add: zoomWheel_def Let_def filter_dispatchWheelEvent)

lemma map_filter_append:
  "List.map_filter h (xs @ ys) = List.map_filter h xs @ List.map_filter h ys"
  by (simp add: List.map_filter_def)

lemmas filter_effects =
  filter_dispatchPointerEvent filter_dispatchClickEvent filter_dispatchWheelEvent
  filter_sendUpdate filter_panScroll filter_zoomWheel map_filter_append
  List.map_filter_simps

lemma list_ex_filter: "list_ex P xs \<longleftrightarrow> filter P xs \<noteq> []"
  by (induction xs) auto

lemma detectLoop_hand_cursor:
  assumes "handDetected s f lm"
  shows "cursorX (engine (detectLoop s f)) =
           cursorX s + ((1 - lm_x (lm ! 8)) * innerWidth f - cursorX s) * smoothing"
    and "cursorY (engine (detectLoop s f)) =
           cursorY s + (lm_y (lm ! 8) * innerHeight f - cursorY s) * smoothing"
  using assms
  by (simp_all add: detectLoop_hand_engine interact_cursor smoothCursor_cursorX smoothCursor_cursorY)

section \<open>Every branch of the loop\<close>

lemma detectLoop_cases:
  "detectLoop s f =
     (if processed s f then
        (case firstHand f of
           None \<Rightarrow> schedule f (s\<lparr>lastVideoTime := currentTime f\<rparr>) []
         | Some lm \<Rightarrow>
             (let r = processHand (s\<lparr>lastVideoTime := currentTime f\<rparr>) f lm
              in if raised r = None then schedule f (engine r) (effects r) else r))
      else schedule f s [])"
  by (auto simp: detectLoop_def firstHand_def processed_def Let_def
      split: option.splits list.splits)

lemma processHand_cases:
  "processHand s f lm =
     (if length lm \<le> 8 then \<lparr> engine = s, effects = [], raised = Some TypeError \<rparr>
      else if length lm \<le> 9
      then \<lparr> engine = smoothCursor s f (lm ! 8), effects = [], raised = Some TypeError \<rparr>
      else interact (smoothCursor s f (lm ! 8)) f (pinchDistance (lm ! 8) (lm ! 4) < 0.06)
             (handScale (lm ! 0) (lm ! 9)))"
  by (simp add: processHand_def Let_def)

lemma interact_clicks:
  "filter isClick (effects (interact s f p c)) =
     (if \<not> p \<and> wasPinching s \<and> \<not> isScrolling s \<and>
         200 < dateNow f - pinchStartTime s \<and> dateNow f - pinchStartTime s < 1800
      then dispatchClickEvent f (cursorX s) (cursorY s) else [])"
  by (cases p; cases "wasPinching s")
     (simp_all add: interact_simps filter_effects del: filter_True filter_False)

lemma processHand_clicks:
  "isScrolling s \<Longrightarrow> filter isClick (effects (processHand s f lm)) = []"
  by (simp add: processHand_cases interact_clicks smoothCursor_session
      del: filter_True filter_False)

lemma detectLoop_no_click:
  "isScrolling s \<Longrightarrow> filter isClick (effects (detectLoop s f)) = []"
  by (simp add: detectLoop_cases schedule_def processHand_clicks Let_def
      split: option.splits del: filter_True filter_False)

lemma interact_keeps_scroll:
  "isScrolling s \<Longrightarrow> wasPinching s \<Longrightarrow>
   isScrolling (engine (interact s f True c)) \<and> wasPinching (engine (interact s f True c))"
  by (simp add: interact_hold)

lemma detectLoop_keeps_scroll:
  assumes "isScrolling s" and "wasPinching s" and "pinchContinues f"
  shows "isScrolling (engine (detectLoop s f)) \<and> wasPinching (engine (detectLoop s f)) \<and>
         raised (detectLoop s f) = None"
proof (cases "firstHand f")
  case None
  then show ?thesis
    using assms(1,2) by (simp add: detectLoop_cases schedule_def)
next
  case (Some lm)
  let ?s1 = "smoothCursor (s\<lparr>lastVideoTime := currentTime f\<rparr>) f (lm ! 8)"
  from Some assms(3) have p: "9 < length lm" "pinchDistance (lm ! 8) (lm ! 4) < 0.06"
    by (simp_all add: pinchContinues_def)
  have k: "isScrolling ?s1" "wasPinching ?s1"
    using assms(1,2) by (simp_all add: smoothCursor_session)
  have "processHand (s\<lparr>lastVideoTime := currentTime f\<rparr>) f lm =
          interact ?s1 f True (handScale (lm ! 0) (lm ! 9))"
    using p by (simp add: processHand_ok)
  then show ?thesis
    using Some assms(1,2) interact_keeps_scroll[OF k]
    by (simp add: detectLoop_cases schedule_def raised_interact Let_def)
qed

lemma runFrames_scroll_no_click:
  assumes "isScrolling s" and "wasPinching s" and "\<forall>f \<in> set fs. pinchContinues f"
  shows "filter isClick (effects (runFrames s (fs @ [g]))) = []"
  using assms
proof (induction fs arbitrary: s)
  case Nil
  then show ?case
    by (simp add: detectLoop_no_click Let_def split: option.splits del: filter_True filter_False)
next
  case (Cons f fs)
  have k: "isScrolling (engine (detectLoop s f))" "wasPinching (engine (detectLoop s f))"
    "raised (detectLoop s f) = None"
    using Cons.prems detectLoop_keeps_scroll[of s f] by simp_all
  have "filter isClick (effects (runFrames (engine (detectLoop s f)) (fs @ [g]))) = []"
    using Cons.IH[OF k(1,2)] Cons.prems(3) by simp
  then show ?case
    using k(3) Cons.prems(1)
    by (simp add: detectLoop_no_click Let_def del: filter_True filter_False)
qed

section \<open>The example inputs, evaluated\<close>

lemma pinchedHand_nth: "i < 21 \<Longrightarrow> pinchedHand ! i = \<lparr> lm_x = 1 / 2, lm_y = 1 / 2 \<rparr>"
  by (simp add: pinchedHand_def)

lemma length_hands:
  "length pinchedHand = 21" "length openHand = 21" "length boundaryHand = 21"
  "length nearHand = 21" "length movedHand = 21"
  by (simp_all add: pinchedHand_def openHand_def boundaryHand_def nearHand_def movedHand_def)

lemma pinchDistance_eqI:
  "0 \<le> r \<Longrightarrow> (lm_x a - lm_x b)\<^sup>2 + (lm_y a - lm_y b)\<^sup>2 = r\<^sup>2 \<Longrightarrow> pinchDistance a b = r"
  by (simp add: pinchDistance_def Let_def power2_eq_square real_sqrt_unique)

lemma handScale_eqI:
  "0 \<le> r \<Longrightarrow> (lm_x b - lm_x a)\<^sup>2 + (lm_y b - lm_y a)\<^sup>2 = r\<^sup>2 \<Longrightarrow> handScale a b = r"
  by (simp add: handScale_def real_sqrt_unique)

lemma pinchDistance_pinchedHand: "pinchDistance (pinchedHand ! 8) (pinchedHand ! 4) = 0"
  by (rule pinchDistance_eqI) (simp_all add: pinchedHand_def)

lemma handScale_pinchedHand: "handScale (pinchedHand ! 0) (pinchedHand ! 9) = 0"
  by (rule handScale_eqI) (simp_all add: pinchedHand_def)

lemma pinchDistance_openHand: "pinchDistance (openHand ! 8) (openHand ! 4) = 3 / 10"
  by (rule pinchDistance_eqI) (simp_all add: openHand_def pinchedHand_def power2_eq_square)

lemma handScale_openHand: "handScale (openHand ! 0) (openHand ! 9) = 0"
  by (rule handScale_eqI) (simp_all add: openHand_def pinchedHand_def)

lemma pinchDistance_boundaryHand: "pinchDistance (boundaryHand ! 8) (boundaryHand ! 4) = 0.06"
  by (rule pinchDistance_eqI) (simp_all add: boundaryHand_def pinchedHand_def power2_eq_square)

lemma pinchDistance_nearHand: "pinchDistance (nearHand ! 8) (nearHand ! 4) = 0"
  by (rule pinchDistance_eqI) (simp_all add: nearHand_def pinchedHand_def)

lemma handScale_nearHand: "handScale (nearHand ! 0) (nearHand ! 9) = 1 / 10"
  by (rule handScale_eqI) (simp_all add: nearHand_def pinchedHand_def power2_eq_square)

lemma pinchDistance_movedHand: "pinchDistance (movedHand ! 8) (movedHand ! 4) = 0"
  by (rule pinchDistance_eqI) (simp_all add: movedHand_def)

lemma handScale_movedHand: "handScale (movedHand ! 0) (movedHand ! 9) = 0"
  by (rule handScale_eqI) (simp_all add: movedHand_def)

lemma firstHand_exampleFrame: "firstHand (exampleFrame t now lm) = Some lm"
  by (simp add: firstHand_def exampleFrame_def)

lemma firstHand_offDocument: "firstHand (offDocument f) = firstHand f"
  by (simp add: firstHand_def offDocument_def)

lemma exampleFrame_fields:
  "currentTime (exampleFrame t now lm) = t"
  "dateNow (exampleFrame t now lm) = now"
  "innerWidth (exampleFrame t now lm) = 1000"
  "innerHeight (exampleFrame t now lm) = 800"
  "elementFromPoint (exampleFrame t now lm) px py = Some panelButton"
  "requestId (exampleFrame t now lm) = 7"
  by (simp_all add: exampleFrame_def)

lemma offDocument_fields:
  "currentTime (offDocument f) = currentTime f"
  "dateNow (offDocument f) = dateNow f"
  "innerWidth (offDocument f) = innerWidth f"
  "innerHeight (offDocument f) = innerHeight f"
  "elementFromPoint (offDocument f) px py = None"
  "requestId (offDocument f) = requestId f"
  by (simp_all add: offDocument_def)

lemma handDetected_connected:
  "9 < length lm \<Longrightarrow> handDetected connectedService (exampleFrame 1 now lm) lm"
  by (simp add: handDetected_def connectedService_def initialService_def
      firstHand_exampleFrame exampleFrame_fields)

lemma pressedService_eq:
  "pressedService =
     \<lparr> handLandmarker = Some 1, video = Some \<lparr> videoId = 1, srcObject = Some [1] \<rparr>,
       animationId = Some 7, lastVideoTime = 1, callback = Some 1,
       cursorX = 500, cursorY = 400, targetX = 500, targetY = 400,
       wasPinching = True, pinchStartTime = 1000, isScrolling = False,
       lastScrollX = 500, lastScrollY = 400, lastHandScale = 0 \<rparr>"
proof -
  have h: "handDetected connectedService (exampleFrame 1 1000 pinchedHand) pinchedHand"
    by (rule handDetected_connected) (simp add: length_hands)
  have w: "\<not> wasPinching
             (smoothCursor (connectedService\<lparr>lastVideoTime := 1\<rparr>)
                (exampleFrame 1 1000 pinchedHand) (pinchedHand ! 8))"
    by (simp add: smoothCursor_session connectedService_def initialService_def)
  show ?thesis
    unfolding pressedService_def detectLoop_hand_engine[OF h]
    by (simp add: exampleFrame_fields pinchDistance_pinchedHand handScale_pinchedHand
        interact_start[OF w[unfolded exampleFrame_fields]] w)
       (simp add: smoothCursor_def smoothing_def connectedService_def initialService_def
        exampleFrame_fields pinchedHand_nth Let_def)
qed

lemma handDetected_pressed:
  "9 < length lm \<Longrightarrow> t \<noteq> 1 \<Longrightarrow> handDetected pressedService (exampleFrame t now lm) lm"
  by (simp add: handDetected_def pressedService_eq firstHand_exampleFrame exampleFrame_fields)

lemma handDetected_pressed_off:
  "9 < length lm \<Longrightarrow> t \<noteq> 1 \<Longrightarrow>
   handDetected pressedService (offDocument (exampleFrame t now lm)) lm"
  by (simp add: handDetected_def pressedService_eq firstHand_exampleFrame firstHand_offDocument
      exampleFrame_fields offDocument_fields)

section \<open>The claims of the specification\<close>

lemma detectLoop_hand_target:
  assumes "handDetected s f lm"
  shows "targetX (engine (detectLoop s f)) = (1 - lm_x (lm ! 8)) * innerWidth f"
    and "targetY (engine (detectLoop s f)) = lm_y (lm ! 8) * innerHeight f"
  using assms by (simp_all add: detectLoop_hand_engine interact_cursor smoothCursor_target)

text \<open>
  Claim C3. A frame in which no hand is detected leaves the cursor and every field of
  the pinch session as they were, dispatches no pointer, wheel or click event, calls
  no scroll-by and does not invoke the host callback: the only call made is the
  scheduling of the next frame, and nothing is raised.
\<close>

theorem no_hand_frame:
  assumes "noHand f"
  shows "cursorX (engine (detectLoop s f)) = cursorX s \<and>
         cursorY (engine (detectLoop s f)) = cursorY s \<and>
         wasPinching (engine (detectLoop s f)) = wasPinching s \<and>
         pinchStartTime (engine (detectLoop s f)) = pinchStartTime s \<and>
         isScrolling (engine (detectLoop s f)) = isScrolling s \<and>
         lastScrollX (engine (detectLoop s f)) = lastScrollX s \<and>
         lastScrollY (engine (detectLoop s f)) = lastScrollY s \<and>
         lastHandScale (engine (detectLoop s f)) = lastHandScale s \<and>
         effects (detectLoop s f) = [RequestAnimationFrame] \<and>
         raised (detectLoop s f) = None"
  using assms by (simp add: noHand_def detectLoop_noHand schedule_def)

theorem no_hand_frame_witness:
  "noHand (emptyFrame 2 1500) \<and>
   cursorX (engine (detectLoop pressedService (emptyFrame 2 1500))) = 500 \<and>
   wasPinching (engine (detectLoop pressedService (emptyFrame 2 1500))) \<and>
   pinchStartTime (engine (detectLoop pressedService (emptyFrame 2 1500))) = 1000 \<and>
   effects (detectLoop pressedService (emptyFrame 2 1500)) = [RequestAnimationFrame]"
proof -
  have h: "noHand (emptyFrame 2 1500)"
    by (simp add: noHand_def firstHand_def emptyFrame_def)
  show ?thesis
    using h no_hand_frame[OF h, of pressedService] by (simp add: pressedService_eq)
qed

text \<open>
  Claim C8. In a frame with a detected hand the pinch classification, as the service
  keeps it in \<^verbatim>\<open>wasPinching\<close>, is true exactly when the Euclidean distance between the
  index fingertip (landmark 8) and the thumb tip (landmark 4) is strictly below 0.06;
  at a distance of exactly 0.06 the hand is classified as not pinching.
\<close>

theorem pinch_threshold:
  assumes "handDetected s f lm"
  shows "(wasPinching (engine (detectLoop s f)) \<longleftrightarrow>
            sqrt ((lm_x (lm ! 8) - lm_x (lm ! 4))\<^sup>2 + (lm_y (lm ! 8) - lm_y (lm ! 4))\<^sup>2) < 0.06) \<and>
         (sqrt ((lm_x (lm ! 8) - lm_x (lm ! 4))\<^sup>2 + (lm_y (lm ! 8) - lm_y (lm ! 4))\<^sup>2) = 0.06 \<longrightarrow>
            \<not> wasPinching (engine (detectLoop s f)))"
  using assms by (simp add: detectLoop_hand_engine interact_wasPinching pinchDistance_euclid)

theorem pinch_threshold_witness:
  "handDetected connectedService (exampleFrame 1 1000 boundaryHand) boundaryHand \<and>
   sqrt ((lm_x (boundaryHand ! 8) - lm_x (boundaryHand ! 4))\<^sup>2 +
         (lm_y (boundaryHand ! 8) - lm_y (boundaryHand ! 4))\<^sup>2) = 0.06 \<and>
   \<not> wasPinching (engine (detectLoop connectedService (exampleFrame 1 1000 boundaryHand)))"
proof -
  have h: "handDetected connectedService (exampleFrame 1 1000 boundaryHand) boundaryHand"
    by (rule handDetected_connected) (simp add: length_hands)
  have d: "sqrt ((lm_x (boundaryHand ! 8) - lm_x (boundaryHand ! 4))\<^sup>2 +
                 (lm_y (boundaryHand ! 8) - lm_y (boundaryHand ! 4))\<^sup>2) = 0.06"
    using pinchDistance_boundaryHand by (simp only: pinchDistance_euclid)
  show ?thesis
    using h d pinch_threshold[OF h] by blast
qed

text \<open>
  Claim C9. \<^verbatim>\<open>disconnect\<close> on a service that was never connected makes no call at
  all and changes nothing; on any service, a second call leaves the same fields as
  the first, with the video and the detector handle null. The model has no raising
  branch.
\<close>

theorem disconnect_idempotent:
  "disconnect (initialService w h) = (initialService w h, []) \<and>
   fst (disconnect (fst (disconnect s))) = fst (disconnect s) \<and>
   video (fst (disconnect s)) = None \<and>
   handLandmarker (fst (disconnect s)) = None"
  by (simp add: disconnect_def initialService_def Let_def split: option.splits prod.splits)

text \<open>
  Claim C10. In a frame with a detected hand the raw cursor target is mirrored
  horizontally: its x coordinate is \<open>(1 - indexTip.x)\<close> times the window width, its y
  coordinate is \<open>indexTip.y\<close> times the window height; so, in a window of positive
  width, an index tip further to the left of the camera image gives a target further
  to the right of the screen.
\<close>

theorem mirrored_target:
  assumes "handDetected s f lm"
  shows "targetX (engine (detectLoop s f)) = (1 - lm_x (lm ! 8)) * innerWidth f \<and>
         targetY (engine (detectLoop s f)) = lm_y (lm ! 8) * innerHeight f \<and>
         (handDetected s' f' lm' \<and> innerWidth f' = innerWidth f \<and> 0 < innerWidth f \<and>
          lm_x (lm ! 8) < lm_x (lm' ! 8) \<longrightarrow>
            targetX (engine (detectLoop s' f')) < targetX (engine (detectLoop s f)))"
proof (intro conjI impI)
  show "targetX (engine (detectLoop s f)) = (1 - lm_x (lm ! 8)) * innerWidth f"
    using assms by (rule detectLoop_hand_target)
  show "targetY (engine (detectLoop s f)) = lm_y (lm ! 8) * innerHeight f"
    using assms by (rule detectLoop_hand_target)
  assume a: "handDetected s' f' lm' \<and> innerWidth f' = innerWidth f \<and> 0 < innerWidth f \<and>
             lm_x (lm ! 8) < lm_x (lm' ! 8)"
  then have "(1 - lm_x (lm' ! 8)) * innerWidth f' < (1 - lm_x (lm ! 8)) * innerWidth f"
    by (simp add: mult_strict_right_mono)
  moreover have "targetX (engine (detectLoop s' f')) = (1 - lm_x (lm' ! 8)) * innerWidth f'"
    using a by (intro detectLoop_hand_target) simp
  moreover have "targetX (engine (detectLoop s f)) = (1 - lm_x (lm ! 8)) * innerWidth f"
    using assms by (rule detectLoop_hand_target)
  ultimately show "targetX (engine (detectLoop s' f')) < targetX (engine (detectLoop s f))"
    by simp
qed

theorem mirrored_target_witness:
  "handDetected connectedService (exampleFrame 1 1000 movedHand) movedHand \<and>
   handDetected pressedService (exampleFrame 2 1500 pinchedHand) pinchedHand \<and>
   lm_x (movedHand ! 8) < lm_x (pinchedHand ! 8) \<and>
   targetX (engine (detectLoop connectedService (exampleFrame 1 1000 movedHand))) = 600 \<and>
   targetY (engine (detectLoop connectedService (exampleFrame 1 1000 movedHand))) = 400 \<and>
   targetX (engine (detectLoop pressedService (exampleFrame 2 1500 pinchedHand)))
     < targetX (engine (detectLoop connectedService (exampleFrame 1 1000 movedHand)))"
proof -
  have h: "handDetected connectedService (exampleFrame 1 1000 movedHand) movedHand"
    by (rule handDetected_connected) (simp add: length_hands)
  have h': "handDetected pressedService (exampleFrame 2 1500 pinchedHand) pinchedHand"
    by (rule handDetected_pressed) (simp_all add: length_hands)
  have x: "lm_x (movedHand ! 8) < lm_x (pinchedHand ! 8)"
    by (simp add: movedHand_def pinchedHand_def)
  show ?thesis
    using h h' x
      mirrored_target[OF h, of pressedService "exampleFrame 2 1500 pinchedHand" pinchedHand]
    by (simp add: exampleFrame_fields movedHand_def)
qed

lemma smoothCursor_pressed:
  "lm_x tip = 1 / 2 \<Longrightarrow> lm_y tip = 1 / 2 \<Longrightarrow>
   smoothCursor (pressedService\<lparr>lastVideoTime := t\<rparr>) (exampleFrame t now lm) tip =
     pressedService\<lparr>lastVideoTime := t\<rparr>"
  "lm_x tip = 1 / 2 \<Longrightarrow> lm_y tip = 1 / 2 \<Longrightarrow>
   smoothCursor (pressedService\<lparr>lastVideoTime := t\<rparr>) (offDocument (exampleFrame t now lm)) tip =
     pressedService\<lparr>lastVideoTime := t\<rparr>"
  by (simp_all add: smoothCursor_def smoothing_def pressedService_eq exampleFrame_fields
      offDocument_fields Let_def)

lemma tips:
  "lm_x (openHand ! 8) = 1 / 2" "lm_y (openHand ! 8) = 1 / 2"
  "lm_x (pinchedHand ! 8) = 1 / 2" "lm_y (pinchedHand ! 8) = 1 / 2"
  "lm_x (nearHand ! 8) = 1 / 2" "lm_y (nearHand ! 8) = 1 / 2"
  by (simp_all add: openHand_def nearHand_def pinchedHand_def)

lemma pressed_release_effects:
  "effects (detectLoop pressedService (exampleFrame 2 now openHand)) =
     effects (interact (pressedService\<lparr>lastVideoTime := 2\<rparr>) (exampleFrame 2 now openHand)
                False 0) @ [RequestAnimationFrame]"
proof -
  have h: "handDetected pressedService (exampleFrame 2 now openHand) openHand"
    by (rule handDetected_pressed) (simp_all add: length_hands)
  show ?thesis
    unfolding detectLoop_hand_effects[OF h]
    by (simp add: exampleFrame_fields pinchDistance_openHand handScale_openHand
        smoothCursor_pressed tips)
qed

text \<open>
  Claim C1, as amended. When a pinch that never entered scroll mode is released, the
  click side effect (a click event for the element under the release position,
  nothing when there is none) is emitted exactly when the duration is strictly
  between 200 ms and 1800 ms: 200 ms gives no click, 201 ms and 1799 ms give a click,
  1800 ms and 1801 ms give none.
\<close>

theorem click_on_release:
  assumes "handDetected s f lm" and "wasPinching s" and "\<not> isScrolling s"
    and "\<not> pinchDistance (lm ! 8) (lm ! 4) < 0.06"
  shows "filter isClick (effects (detectLoop s f)) =
           (if 200 < dateNow f - pinchStartTime s \<and> dateNow f - pinchStartTime s < 1800
            then dispatchClickEvent f (cursorX (engine (detectLoop s f)))
                   (cursorY (engine (detectLoop s f)))
            else []) \<and>
         (list_ex isClick (effects (detectLoop s f)) \<longleftrightarrow>
            200 < dateNow f - pinchStartTime s \<and> dateNow f - pinchStartTime s < 1800 \<and>
            elementFromPoint f (cursorX (engine (detectLoop s f)))
              (cursorY (engine (detectLoop s f))) \<noteq> None)"
proof -
  let ?s1 = "smoothCursor (s\<lparr>lastVideoTime := currentTime f\<rparr>) f (lm ! 8)"
  have w: "wasPinching ?s1" "\<not> isScrolling ?s1" "pinchStartTime ?s1 = pinchStartTime s"
    using assms(2,3) by (simp_all add: smoothCursor_session)
  have e: "effects (detectLoop s f) =
             effects (interact ?s1 f False (handScale (lm ! 0) (lm ! 9))) @ [RequestAnimationFrame]"
    using assms(1,4) by (simp add: detectLoop_hand_effects)
  have c: "cursorX (engine (detectLoop s f)) = cursorX ?s1"
          "cursorY (engine (detectLoop s f)) = cursorY ?s1"
    using assms(1) by (simp_all add: detectLoop_hand_engine interact_cursor)
  have 1: "filter isClick (effects (detectLoop s f)) =
           (if 200 < dateNow f - pinchStartTime s \<and> dateNow f - pinchStartTime s < 1800
            then dispatchClickEvent f (cursorX (engine (detectLoop s f)))
                   (cursorY (engine (detectLoop s f)))
            else [])"
    unfolding e c using w
    by (simp add: interact_release filter_effects del: filter_True filter_False)
  have 2: "dispatchClickEvent f px py \<noteq> [] \<longleftrightarrow> elementFromPoint f px py \<noteq> None" for px py
    by (simp add: dispatchClickEvent_def split: option.splits)
  show ?thesis
    using 1 2 by (auto simp add: list_ex_filter)
qed

theorem click_on_release_witness:
  "handDetected pressedService (exampleFrame 2 1201 openHand) openHand \<and>
   wasPinching pressedService \<and> \<not> isScrolling pressedService \<and>
   \<not> pinchDistance (openHand ! 8) (openHand ! 4) < 0.06 \<and>
   dateNow (exampleFrame 2 1201 openHand) - pinchStartTime pressedService = 201 \<and>
   filter isClick (effects (detectLoop pressedService (exampleFrame 2 1201 openHand))) =
     [DispatchEvent panelButton (MouseEvent ''click'' 500 400)]"
proof -
  have h: "handDetected pressedService (exampleFrame 2 1201 openHand) openHand"
    by (rule handDetected_pressed) (simp_all add: length_hands)
  have w: "wasPinching pressedService" "\<not> isScrolling pressedService"
    by (simp_all add: pressedService_eq)
  have p: "\<not> pinchDistance (openHand ! 8) (openHand ! 4) < 0.06"
    by (simp add: pinchDistance_openHand)
  have d: "dateNow (exampleFrame 2 1201 openHand) - pinchStartTime pressedService = 201"
    by (simp add: exampleFrame_fields pressedService_eq)
  have c: "cursorX (engine (detectLoop pressedService (exampleFrame 2 1201 openHand))) = 500"
    "cursorY (engine (detectLoop pressedService (exampleFrame 2 1201 openHand))) = 400"
    using detectLoop_hand_cursor[OF h]
    by (simp_all add: tips exampleFrame_fields pressedService_eq smoothing_def)
  show ?thesis
    using h w p d click_on_release[OF h w p]
    by (simp add: c dispatchClickEvent_def exampleFrame_fields)
qed

theorem click_at_1800_counterexample:
  "handDetected pressedService (exampleFrame 2 2800 openHand) openHand \<and>
   wasPinching pressedService \<and> \<not> isScrolling pressedService \<and>
   \<not> pinchDistance (openHand ! 8) (openHand ! 4) < 0.06 \<and>
   dateNow (exampleFrame 2 2800 openHand) - pinchStartTime pressedService = 1800 \<and>
   elementFromPoint (exampleFrame 2 2800 openHand) 500 400 = Some panelButton \<and>
   \<not> list_ex isClick (effects (detectLoop pressedService (exampleFrame 2 2800 openHand)))"
proof -
  have h: "handDetected pressedService (exampleFrame 2 2800 openHand) openHand"
    by (rule handDetected_pressed) (simp_all add: length_hands)
  have "filter isClick (effects (detectLoop pressedService (exampleFrame 2 2800 openHand))) = []"
    unfolding pressed_release_effects
    by (simp add: interact_clicks exampleFrame_fields pressedService_eq
        del: filter_True filter_False)
  then show ?thesis
    using h by (simp add: list_ex_filter pinchDistance_openHand exampleFrame_fields
        pressedService_eq)
qed

lemma pressed_hold_effects:
  "effects (detectLoop pressedService (exampleFrame 2 now pinchedHand)) =
     effects (interact (pressedService\<lparr>lastVideoTime := 2\<rparr>) (exampleFrame 2 now pinchedHand)
                True 0) @ [RequestAnimationFrame]"
proof -
  have h: "handDetected pressedService (exampleFrame 2 now pinchedHand) pinchedHand"
    by (rule handDetected_pressed) (simp_all add: length_hands)
  show ?thesis
    unfolding detectLoop_hand_effects[OF h]
    by (simp add: exampleFrame_fields pinchDistance_pinchedHand handScale_pinchedHand
        smoothCursor_pressed tips)
qed

lemma pressed_hold_engine:
  "engine (detectLoop pressedService (exampleFrame 2 now pinchedHand)) =
     (engine (interact (pressedService\<lparr>lastVideoTime := 2\<rparr>) (exampleFrame 2 now pinchedHand)
                True 0))\<lparr> animationId := Some 7 \<rparr>"
proof -
  have h: "handDetected pressedService (exampleFrame 2 now pinchedHand) pinchedHand"
    by (rule handDetected_pressed) (simp_all add: length_hands)
  show ?thesis
    unfolding detectLoop_hand_engine[OF h]
    by (simp add: exampleFrame_fields pinchDistance_pinchedHand handScale_pinchedHand
        smoothCursor_pressed tips)
qed

text \<open>
  Claim C2, as amended. In a frame that continues a pinch, the service enters scroll
  mode (sets \<^verbatim>\<open>isScrolling\<close>) and reports the gesture SCROLL to the host callback,
  when one is set, exactly when the time since the pinch started is strictly greater
  than 2000 ms;
  otherwise \<^verbatim>\<open>isScrolling\<close> keeps its value and the gesture reported is PINCH. At
  exactly 2000 ms the pinch is not yet a scroll.
\<close>

theorem scroll_after_dwell:
  assumes "handDetected s f lm" and "wasPinching s"
    and "pinchDistance (lm ! 8) (lm ! 4) < 0.06"
  shows "(isScrolling (engine (detectLoop s f)) \<longleftrightarrow>
            2000 < dateNow f - pinchStartTime s \<or> isScrolling s) \<and>
         List.map_filter reportedGesture (effects (detectLoop s f)) =
           (case callback s of
              Some cb \<Rightarrow> [if 2000 < dateNow f - pinchStartTime s then SCROLL else PINCH]
            | None \<Rightarrow> [])"
proof -
  let ?s1 = "smoothCursor (s\<lparr>lastVideoTime := currentTime f\<rparr>) f (lm ! 8)"
  have w: "wasPinching ?s1" "isScrolling ?s1 = isScrolling s"
    "pinchStartTime ?s1 = pinchStartTime s" "callback ?s1 = callback s"
    using assms(2) by (simp_all add: smoothCursor_session)
  have e: "effects (detectLoop s f) =
             effects (interact ?s1 f True (handScale (lm ! 0) (lm ! 9))) @ [RequestAnimationFrame]"
    using assms(1,3) by (simp add: detectLoop_hand_effects)
  have g: "engine (detectLoop s f) =
             (engine (interact ?s1 f True (handScale (lm ! 0) (lm ! 9))))
               \<lparr> animationId := Some (requestId f) \<rparr>"
    using assms(1,3) by (simp add: detectLoop_hand_engine)
  show ?thesis
    unfolding e g using w
    by (simp add: interact_hold filter_effects split: option.splits del: filter_True filter_False)
qed

theorem scroll_after_dwell_witness:
  "handDetected pressedService (exampleFrame 2 3001 pinchedHand) pinchedHand \<and>
   wasPinching pressedService \<and>
   pinchDistance (pinchedHand ! 8) (pinchedHand ! 4) < 0.06 \<and>
   dateNow (exampleFrame 2 3001 pinchedHand) - pinchStartTime pressedService = 2001 \<and>
   isScrolling (engine (detectLoop pressedService (exampleFrame 2 3001 pinchedHand))) \<and>
   List.map_filter reportedGesture
     (effects (detectLoop pressedService (exampleFrame 2 3001 pinchedHand))) = [SCROLL]"
proof -
  have h: "handDetected pressedService (exampleFrame 2 3001 pinchedHand) pinchedHand"
    by (rule handDetected_pressed) (simp_all add: length_hands)
  have w: "wasPinching pressedService"
    by (simp add: pressedService_eq)
  have p: "pinchDistance (pinchedHand ! 8) (pinchedHand ! 4) < 0.06"
    by (simp add: pinchDistance_pinchedHand)
  have d: "dateNow (exampleFrame 2 3001 pinchedHand) - pinchStartTime pressedService = 2001"
    by (simp add: exampleFrame_fields pressedService_eq)
  have c: "callback pressedService = Some 1"
    by (simp add: pressedService_eq)
  show ?thesis
    using h w p d scroll_after_dwell[OF h w p] by (simp add: c)
qed

theorem scroll_at_2000_counterexample:
  "handDetected pressedService (exampleFrame 2 3000 pinchedHand) pinchedHand \<and>
   wasPinching pressedService \<and>
   pinchDistance (pinchedHand ! 8) (pinchedHand ! 4) < 0.06 \<and>
   dateNow (exampleFrame 2 3000 pinchedHand) - pinchStartTime pressedService = 2000 \<and>
   \<not> isScrolling (engine (detectLoop pressedService (exampleFrame 2 3000 pinchedHand))) \<and>
   List.map_filter reportedGesture
     (effects (detectLoop pressedService (exampleFrame 2 3000 pinchedHand))) = [PINCH]"
proof -
  have h: "handDetected pressedService (exampleFrame 2 3000 pinchedHand) pinchedHand"
    by (rule handDetected_pressed) (simp_all add: length_hands)
  have w: "wasPinching (pressedService\<lparr>lastVideoTime := 2\<rparr>)"
    by (simp add: pressedService_eq)
  have d: "dateNow (exampleFrame 2 3000 pinchedHand) -
           pinchStartTime (pressedService\<lparr>lastVideoTime := 2\<rparr>) = 2000"
    by (simp add: exampleFrame_fields pressedService_eq)
  have i: "\<not> isScrolling (engine (detectLoop pressedService (exampleFrame 2 3000 pinchedHand)))"
    unfolding pressed_hold_engine
    by (simp add: interact_hold[OF w] d) (simp add: pressedService_eq exampleFrame_fields)
  have g: "List.map_filter reportedGesture
             (effects (detectLoop pressedService (exampleFrame 2 3000 pinchedHand))) = [PINCH]"
    unfolding pressed_hold_effects
    by (simp add: interact_hold[OF w] d filter_effects)
       (simp add: pressedService_eq exampleFrame_fields)
  show ?thesis
    using h i g
    by (simp add: pinchDistance_pinchedHand exampleFrame_fields pressedService_eq)
qed

lemma interact_engine_document:
  "engine (interact s (f\<lparr>elementFromPoint := e\<rparr>) p c) = engine (interact s f p c)"
  by (cases p; cases "wasPinching s") (simp_all add: interact_simps)

lemma smoothCursor_document:
  "smoothCursor s (f\<lparr>elementFromPoint := e\<rparr>) tip = smoothCursor s f tip"
  by (simp add: smoothCursor_def)

lemma handDetected_document:
  "handDetected s (f\<lparr>elementFromPoint := e\<rparr>) lm = handDetected s f lm"
  by (simp add: handDetected_def firstHand_def)

lemma detectLoop_engine_document:
  assumes "handDetected s f lm"
  shows "engine (detectLoop s (f\<lparr>elementFromPoint := e\<rparr>)) = engine (detectLoop s f)"
proof -
  have h: "handDetected s (f\<lparr>elementFromPoint := e\<rparr>) lm"
    using assms by (simp add: handDetected_document)
  show ?thesis
    unfolding detectLoop_hand_engine[OF h] detectLoop_hand_engine[OF assms]
    by (simp add: smoothCursor_document interact_engine_document)
qed

text \<open>
  Claim C6, as amended. In a frame in scroll mode (a continuing pinch held for more
  than 2000 ms) with an element under the cursor, exactly one wheel event is
  dispatched to that element when the absolute scale delta (the hand scale of this
  frame minus that of the frame before) exceeds 0.002, with
  \<open>deltaY = - scaleDelta * 3000\<close>, and none otherwise; with no element under the
  cursor no wheel event is dispatched, whatever the scale delta.
\<close>

theorem zoom_wheel_dispatch:
  assumes "handDetected s f lm" and "wasPinching s"
    and "pinchDistance (lm ! 8) (lm ! 4) < 0.06"
    and "2000 < dateNow f - pinchStartTime s"
  shows "filter isWheel (effects (detectLoop s f)) =
           (case elementFromPoint f (cursorX (engine (detectLoop s f)))
                   (cursorY (engine (detectLoop s f))) of
              Some element \<Rightarrow>
                if 0.002 < \<bar>handScale (lm ! 0) (lm ! 9) - lastHandScale s\<bar>
                then [DispatchEvent element
                        (WheelEvent (cursorX (engine (detectLoop s f)))
                           (cursorY (engine (detectLoop s f)))
                           (- (handScale (lm ! 0) (lm ! 9) - lastHandScale s) * 3000))]
                else []
            | None \<Rightarrow> [])"
proof -
  let ?s1 = "smoothCursor (s\<lparr>lastVideoTime := currentTime f\<rparr>) f (lm ! 8)"
  have w: "wasPinching ?s1" "lastHandScale ?s1 = lastHandScale s"
    "pinchStartTime ?s1 = pinchStartTime s"
    using assms(2) by (simp_all add: smoothCursor_session)
  have e: "effects (detectLoop s f) =
             effects (interact ?s1 f True (handScale (lm ! 0) (lm ! 9))) @ [RequestAnimationFrame]"
    using assms(1,3) by (simp add: detectLoop_hand_effects)
  have c: "cursorX (engine (detectLoop s f)) = cursorX ?s1"
          "cursorY (engine (detectLoop s f)) = cursorY ?s1"
    using assms(1) by (simp_all add: detectLoop_hand_engine interact_cursor)
  show ?thesis
    unfolding e c using w assms(4)
    by (simp add: interact_hold filter_effects zoomWheel_def dispatchWheelEvent_def
        zoomSensitivity_def Let_def split: option.splits del: filter_True filter_False)
qed

theorem zoom_wheel_dispatch_witness:
  "handDetected pressedService (exampleFrame 2 3500 nearHand) nearHand \<and>
   wasPinching pressedService \<and>
   pinchDistance (nearHand ! 8) (nearHand ! 4) < 0.06 \<and>
   2000 < dateNow (exampleFrame 2 3500 nearHand) - pinchStartTime pressedService \<and>
   handScale (nearHand ! 0) (nearHand ! 9) - lastHandScale pressedService = 1 / 10 \<and>
   filter isWheel (effects (detectLoop pressedService (exampleFrame 2 3500 nearHand))) =
     [DispatchEvent panelButton (WheelEvent 500 400 (- 300))]"
proof -
  have h: "handDetected pressedService (exampleFrame 2 3500 nearHand) nearHand"
    by (rule handDetected_pressed) (simp_all add: length_hands)
  have w: "wasPinching pressedService"
    by (simp add: pressedService_eq)
  have p: "pinchDistance (nearHand ! 8) (nearHand ! 4) < 0.06"
    by (simp add: pinchDistance_nearHand)
  have d: "2000 < dateNow (exampleFrame 2 3500 nearHand) - pinchStartTime pressedService"
    by (simp add: exampleFrame_fields pressedService_eq)
  have z: "handScale (nearHand ! 0) (nearHand ! 9) - lastHandScale pressedService = 1 / 10"
    by (simp add: handScale_nearHand pressedService_eq)
  have c: "cursorX (engine (detectLoop pressedService (exampleFrame 2 3500 nearHand))) = 500"
    "cursorY (engine (detectLoop pressedService (exampleFrame 2 3500 nearHand))) = 400"
    using detectLoop_hand_cursor[OF h]
    by (simp_all add: tips exampleFrame_fields pressedService_eq smoothing_def)
  show ?thesis
    using h w p d z zoom_wheel_dispatch[OF h w p d]
    by (simp add: c exampleFrame_fields)
qed

theorem zoom_without_element_counterexample:
  "handDetected pressedService (offDocument (exampleFrame 2 3500 nearHand)) nearHand \<and>
   wasPinching pressedService \<and>
   pinchDistance (nearHand ! 8) (nearHand ! 4) < 0.06 \<and>
   2000 < dateNow (offDocument (exampleFrame 2 3500 nearHand)) - pinchStartTime pressedService \<and>
   0.002 < \<bar>handScale (nearHand ! 0) (nearHand ! 9) - lastHandScale pressedService\<bar> \<and>
   isScrolling (engine (detectLoop pressedService (offDocument (exampleFrame 2 3500 nearHand)))) \<and>
   filter isWheel
     (effects (detectLoop pressedService (offDocument (exampleFrame 2 3500 nearHand)))) = []"
proof -
  let ?f = "offDocument (exampleFrame 2 3500 nearHand)"
  have h: "handDetected pressedService ?f nearHand"
    by (rule handDetected_pressed_off) (simp_all add: length_hands)
  have w: "wasPinching (pressedService\<lparr>lastVideoTime := 2\<rparr>)"
    by (simp add: pressedService_eq)
  have s1: "smoothCursor (pressedService\<lparr>lastVideoTime := 2\<rparr>) ?f (nearHand ! 8) =
              pressedService\<lparr>lastVideoTime := 2\<rparr>"
    by (simp add: smoothCursor_pressed tips)
  have d: "2000 < dateNow ?f - pinchStartTime (pressedService\<lparr>lastVideoTime := 2\<rparr>)"
    by (simp add: exampleFrame_fields offDocument_fields pressedService_eq)
  have i: "isScrolling (engine (detectLoop pressedService ?f))"
    unfolding detectLoop_hand_engine[OF h]
    using d
    by (simp add: offDocument_fields exampleFrame_fields s1 pinchDistance_nearHand
        interact_hold[OF w])
  have e: "filter isWheel (effects (detectLoop pressedService ?f)) = []"
    unfolding detectLoop_hand_effects[OF h]
    using d
    by (simp add: offDocument_fields exampleFrame_fields s1 pinchDistance_nearHand
        interact_hold[OF w] filter_effects zoomWheel_def dispatchWheelEvent_def Let_def
        del: filter_True filter_False)
  show ?thesis
    using h i e
    by (simp add: pinchDistance_nearHand handScale_nearHand exampleFrame_fields
        offDocument_fields pressedService_eq)
qed

lemma getScrollParent_Some:
  "getScrollParent n = Some t \<Longrightarrow>
   isHTMLElement t \<and> isScrollable t \<and>
   (clientHeight t < scrollHeight t \<or> clientWidth t < scrollWidth t)"
  by (induction n rule: getScrollParent.induct) (auto simp: Let_def split: if_splits)

lemma getScrollParent_nearest:
  "getScrollParent n = List.find scrollCandidate (ancestorChain n)"
  by (induction n rule: getScrollParent.induct)
     (auto simp add: Let_def isScrollable_def scrollCandidate_def)

lemma ancestorChain_svgIcon:
  "ancestorChain (Some svgIcon) = [svgIcon, clippedLabel, fittingBox, scrollPanel]"
  by (simp add: svgIcon_def clippedLabel_def fittingBox_def scrollPanel_def)

lemma ancestorChain_plainText: "ancestorChain (Some plainText) = [plainText, plainPage]"
  by (simp add: plainText_def plainPage_def)

lemma scrollCandidate_examples:
  "\<not> scrollCandidate svgIcon" "\<not> scrollCandidate clippedLabel" "\<not> scrollCandidate fittingBox"
  "scrollCandidate scrollPanel" "\<not> scrollCandidate plainText" "\<not> scrollCandidate plainPage"
  by (simp_all add: scrollCandidate_def svgIcon_def clippedLabel_def fittingBox_def
      scrollPanel_def plainText_def plainPage_def)

lemma overElement_fields:
  "currentTime (overElement el f) = currentTime f"
  "dateNow (overElement el f) = dateNow f"
  "innerWidth (overElement el f) = innerWidth f"
  "innerHeight (overElement el f) = innerHeight f"
  "elementFromPoint (overElement el f) px py = Some el"
  "requestId (overElement el f) = requestId f"
  by (simp_all add: overElement_def)

lemma handDetected_overElement:
  "handDetected s (overElement el f) lm = handDetected s f lm"
  by (simp add: overElement_def handDetected_document)

lemma interact_last:
  "wasPinching s \<Longrightarrow>
   lastScrollX (engine (interact s f True c)) = cursorX s \<and>
   lastScrollY (engine (interact s f True c)) = cursorY s \<and>
   lastHandScale (engine (interact s f True c)) = c"
  by (simp add: interact_hold)

text \<open>
  Claim C7. In a frame in scroll mode whose cursor moved by more than one pixel on
  at least one axis since the frame before, the pan calls \<^verbatim>\<open>scrollBy\<close> once, with
  the delta times -1.5 on each axis, on the resolved scroll target: the nearest
  element, going up from the element under the cursor through its parents, that is
  an \<^verbatim>\<open>HTMLElement\<close>, has an overflow other than \<^verbatim>\<open>visible\<close> and \<^verbatim>\<open>hidden\<close> on some
  axis, and has content larger than its box on some axis. When no element of that
  chain is such a target (or no element is under the cursor) no \<^verbatim>\<open>scrollBy\<close> is
  called, nothing is raised, and the fields of the service are what they are for
  any other document: the last scroll position and the last hand scale are written
  in every case.
\<close>

theorem pan_scroll_by:
  assumes "handDetected s f lm" and "wasPinching s"
    and "pinchDistance (lm ! 8) (lm ! 4) < 0.06"
    and "2000 < dateNow f - pinchStartTime s"
    and "1 < \<bar>cursorX (engine (detectLoop s f)) - lastScrollX s\<bar> \<or>
         1 < \<bar>cursorY (engine (detectLoop s f)) - lastScrollY s\<bar>"
  shows "filter isScrollBy (effects (detectLoop s f)) =
           (case List.find scrollCandidate
                   (ancestorChain
                      (elementFromPoint f (cursorX (engine (detectLoop s f)))
                         (cursorY (engine (detectLoop s f))))) of
              Some scrollable \<Rightarrow>
                [ScrollBy scrollable
                   ((cursorX (engine (detectLoop s f)) - lastScrollX s) * - 1.5)
                   ((cursorY (engine (detectLoop s f)) - lastScrollY s) * - 1.5)]
            | None \<Rightarrow> []) \<and>
         ((\<forall>a \<in> set (ancestorChain
                        (elementFromPoint f (cursorX (engine (detectLoop s f)))
                           (cursorY (engine (detectLoop s f))))). \<not> scrollCandidate a) \<longrightarrow>
            filter isScrollBy (effects (detectLoop s f)) = []) \<and>
         raised (detectLoop s f) = None \<and>
         engine (detectLoop s (f\<lparr>elementFromPoint := e\<rparr>)) = engine (detectLoop s f) \<and>
         lastScrollX (engine (detectLoop s f)) = cursorX (engine (detectLoop s f)) \<and>
         lastScrollY (engine (detectLoop s f)) = cursorY (engine (detectLoop s f)) \<and>
         lastHandScale (engine (detectLoop s f)) = handScale (lm ! 0) (lm ! 9)"
proof -
  let ?s1 = "smoothCursor (s\<lparr>lastVideoTime := currentTime f\<rparr>) f (lm ! 8)"
  let ?c = "handScale (lm ! 0) (lm ! 9)"
  let ?chain = "ancestorChain (elementFromPoint f (cursorX ?s1) (cursorY ?s1))"
  have w: "wasPinching ?s1" "pinchStartTime ?s1 = pinchStartTime s"
    "lastScrollX ?s1 = lastScrollX s" "lastScrollY ?s1 = lastScrollY s"
    using assms(2) by (simp_all add: smoothCursor_session)
  have e: "effects (detectLoop s f) = effects (interact ?s1 f True ?c) @ [RequestAnimationFrame]"
    using assms(1,3) by (simp add: detectLoop_hand_effects)
  have g: "engine (detectLoop s f) =
             (engine (interact ?s1 f True ?c))\<lparr> animationId := Some (requestId f) \<rparr>"
    using assms(1,3) by (simp add: detectLoop_hand_engine)
  have c: "cursorX (engine (detectLoop s f)) = cursorX ?s1"
          "cursorY (engine (detectLoop s f)) = cursorY ?s1"
    using assms(1) by (simp_all add: detectLoop_hand_engine interact_cursor)
  have m: "1 < \<bar>cursorX ?s1 - lastScrollX ?s1\<bar> \<or> 1 < \<bar>cursorY ?s1 - lastScrollY ?s1\<bar>"
    using assms(5) unfolding c w by simp
  have p: "panScroll f ?s1 =
             (case List.find scrollCandidate ?chain of
                Some scrollable \<Rightarrow>
                  [ScrollBy scrollable ((cursorX ?s1 - lastScrollX s) * - 1.5)
                     ((cursorY ?s1 - lastScrollY s) * - 1.5)]
              | None \<Rightarrow> [])"
    using m by (simp add: panScroll_def Let_def w getScrollParent_nearest)
  have 1: "filter isScrollBy (effects (detectLoop s f)) = panScroll f ?s1"
    unfolding e using w(1,2) assms(4)
    by (simp add: interact_hold filter_effects del: filter_True filter_False)
  have n: "(\<forall>a \<in> set ?chain. \<not> scrollCandidate a) \<longrightarrow> panScroll f ?s1 = []"
  proof
    assume "\<forall>a \<in> set ?chain. \<not> scrollCandidate a"
    then have "List.find scrollCandidate ?chain = None"
      by (simp add: find_None_iff)
    then show "panScroll f ?s1 = []"
      unfolding p by simp
  qed
  have 2: "raised (detectLoop s f) = None"
    using assms(1) by (rule detectLoop_hand_raised)
  have 3: "engine (detectLoop s (f\<lparr>elementFromPoint := e\<rparr>)) = engine (detectLoop s f)"
    using assms(1) by (rule detectLoop_engine_document)
  have 4: "lastScrollX (engine (detectLoop s f)) = cursorX ?s1"
    "lastScrollY (engine (detectLoop s f)) = cursorY ?s1"
    "lastHandScale (engine (detectLoop s f)) = ?c"
    unfolding g using interact_last[OF w(1), of f ?c] by simp_all
  show ?thesis
    unfolding c 1 using n 2 3 4 p by (simp add: c)
qed

theorem pan_scroll_by_witness:
  "handDetected pressedService (overElement svgIcon (exampleFrame 2 3500 movedHand)) movedHand \<and>
   handDetected pressedService (overElement plainText (exampleFrame 2 3500 movedHand)) movedHand \<and>
   wasPinching pressedService \<and>
   pinchDistance (movedHand ! 8) (movedHand ! 4) < 0.06 \<and>
   2000 < dateNow (exampleFrame 2 3500 movedHand) - pinchStartTime pressedService \<and>
   cursorX (engine (detectLoop pressedService
                      (overElement svgIcon (exampleFrame 2 3500 movedHand)))) = 520 \<and>
   lastScrollX pressedService = 500 \<and>
   ancestorChain (Some svgIcon) = [svgIcon, clippedLabel, fittingBox, scrollPanel] \<and>
   \<not> scrollCandidate svgIcon \<and> \<not> scrollCandidate clippedLabel \<and>
   \<not> scrollCandidate fittingBox \<and> scrollCandidate scrollPanel \<and>
   filter isScrollBy
     (effects (detectLoop pressedService (overElement svgIcon (exampleFrame 2 3500 movedHand)))) =
     [ScrollBy scrollPanel (- 30) 0] \<and>
   ancestorChain (Some plainText) = [plainText, plainPage] \<and>
   \<not> scrollCandidate plainText \<and> \<not> scrollCandidate plainPage \<and>
   filter isScrollBy
     (effects (detectLoop pressedService (overElement plainText (exampleFrame 2 3500 movedHand)))) =
     [] \<and>
   raised (detectLoop pressedService (overElement plainText (exampleFrame 2 3500 movedHand))) = None"
proof -
  let ?f = "exampleFrame 2 3500 movedHand"
  have h0: "handDetected pressedService ?f movedHand"
    by (rule handDetected_pressed) (simp_all add: length_hands)
  have h: "handDetected pressedService (overElement el ?f) movedHand" for el
    using h0 by (simp add: handDetected_overElement)
  have w: "wasPinching pressedService"
    by (simp add: pressedService_eq)
  have p: "pinchDistance (movedHand ! 8) (movedHand ! 4) < 0.06"
    by (simp add: pinchDistance_movedHand)
  have d0: "2000 < dateNow ?f - pinchStartTime pressedService"
    by (simp add: exampleFrame_fields pressedService_eq)
  have d: "2000 < dateNow (overElement el ?f) - pinchStartTime pressedService" for el
    using d0 by (simp add: overElement_fields)
  have c: "cursorX (engine (detectLoop pressedService (overElement el ?f))) = 520"
    "cursorY (engine (detectLoop pressedService (overElement el ?f))) = 400" for el
    using detectLoop_hand_cursor[OF h[of el]]
    by (simp_all add: movedHand_def exampleFrame_fields overElement_fields pressedService_eq
        smoothing_def)
  have l: "lastScrollX pressedService = 500" "lastScrollY pressedService = 400"
    by (simp_all add: pressedService_eq)
  have m: "1 < \<bar>cursorX (engine (detectLoop pressedService (overElement el ?f)))
                  - lastScrollX pressedService\<bar> \<or>
           1 < \<bar>cursorY (engine (detectLoop pressedService (overElement el ?f)))
                  - lastScrollY pressedService\<bar>" for el
    by (simp add: c l)
  note A = pan_scroll_by[OF h[of svgIcon] w p d[of svgIcon] m[of svgIcon]]
  note B = pan_scroll_by[OF h[of plainText] w p d[of plainText] m[of plainText]]
  have a: "filter isScrollBy (effects (detectLoop pressedService (overElement svgIcon ?f))) =
             [ScrollBy scrollPanel (- 30) 0]"
    using A by (simp add: c l overElement_fields ancestorChain_svgIcon scrollCandidate_examples)
  have b: "filter isScrollBy (effects (detectLoop pressedService (overElement plainText ?f))) = []"
    using B by (simp add: c l overElement_fields ancestorChain_plainText scrollCandidate_examples)
  have r: "raised (detectLoop pressedService (overElement plainText ?f)) = None"
    using B by blast
  show ?thesis
    using h[of svgIcon] h[of plainText] w p d0 c(1)[of svgIcon] l(1) a b r
    by (simp add: ancestorChain_svgIcon ancestorChain_plainText scrollCandidate_examples)
qed

text \<open>
  Claim C5. Once a pinch session has entered scroll mode (a frame that continues the
  pinch more than 2000 ms after its start sets \<^verbatim>\<open>isScrolling\<close>), no later frame of
  the session emits a click, and neither does the frame that releases the pinch,
  however long the session lasts.
\<close>

theorem scroll_session_never_clicks:
  assumes "handDetected s f lm" and "wasPinching s"
    and "pinchDistance (lm ! 8) (lm ! 4) < 0.06"
    and "2000 < dateNow f - pinchStartTime s"
    and "\<forall>h \<in> set fs. pinchContinues h"
  shows "isScrolling (engine (detectLoop s f)) \<and>
         \<not> list_ex isClick (effects (runFrames s (f # fs @ [g])))"
proof -
  let ?s1 = "smoothCursor (s\<lparr>lastVideoTime := currentTime f\<rparr>) f (lm ! 8)"
  have w: "wasPinching ?s1" "pinchStartTime ?s1 = pinchStartTime s"
    using assms(2) by (simp_all add: smoothCursor_session)
  have g: "engine (detectLoop s f) =
             (engine (interact ?s1 f True (handScale (lm ! 0) (lm ! 9))))
               \<lparr> animationId := Some (requestId f) \<rparr>"
    using assms(1,3) by (simp add: detectLoop_hand_engine)
  have e: "effects (detectLoop s f) =
             effects (interact ?s1 f True (handScale (lm ! 0) (lm ! 9))) @ [RequestAnimationFrame]"
    using assms(1,3) by (simp add: detectLoop_hand_effects)
  have k: "isScrolling (engine (detectLoop s f))" "wasPinching (engine (detectLoop s f))"
    unfolding g using w assms(4) by (simp_all add: interact_hold)
  have c: "filter isClick (effects (detectLoop s f)) = []"
    unfolding e by (simp add: interact_clicks del: filter_True filter_False)
  have r: "raised (detectLoop s f) = None"
    using assms(1) by (rule detectLoop_hand_raised)
  have "filter isClick (effects (runFrames (engine (detectLoop s f)) (fs @ [g]))) = []"
    using runFrames_scroll_no_click[OF k assms(5)] .
  then have "filter isClick (effects (runFrames s (f # fs @ [g]))) = []"
    using c r by (simp add: Let_def del: filter_True filter_False)
  then show ?thesis
    using k(1) by (simp add: list_ex_filter)
qed

theorem scroll_session_never_clicks_witness:
  "handDetected pressedService (exampleFrame 2 3500 pinchedHand) pinchedHand \<and>
   wasPinching pressedService \<and>
   pinchDistance (pinchedHand ! 8) (pinchedHand ! 4) < 0.06 \<and>
   2000 < dateNow (exampleFrame 2 3500 pinchedHand) - pinchStartTime pressedService \<and>
   pinchContinues (emptyFrame 3 3600) \<and>
   pinchContinues (exampleFrame 4 3700 pinchedHand) \<and>
   isScrolling (engine (detectLoop pressedService (exampleFrame 2 3500 pinchedHand))) \<and>
   \<not> list_ex isClick
       (effects (runFrames pressedService
          [exampleFrame 2 3500 pinchedHand, emptyFrame 3 3600,
           exampleFrame 4 3700 pinchedHand, exampleFrame 5 4000 openHand]))"
proof -
  have h: "handDetected pressedService (exampleFrame 2 3500 pinchedHand) pinchedHand"
    by (rule handDetected_pressed) (simp_all add: length_hands)
  have w: "wasPinching pressedService"
    by (simp add: pressedService_eq)
  have p: "pinchDistance (pinchedHand ! 8) (pinchedHand ! 4) < 0.06"
    by (simp add: pinchDistance_pinchedHand)
  have d: "2000 < dateNow (exampleFrame 2 3500 pinchedHand) - pinchStartTime pressedService"
    by (simp add: exampleFrame_fields pressedService_eq)
  have c1: "pinchContinues (emptyFrame 3 3600)"
    by (simp add: pinchContinues_def firstHand_def emptyFrame_def)
  have c2: "pinchContinues (exampleFrame 4 3700 pinchedHand)"
    by (simp add: pinchContinues_def firstHand_exampleFrame length_hands
        pinchDistance_pinchedHand)
  have a: "\<forall>h \<in> set [emptyFrame 3 3600, exampleFrame 4 3700 pinchedHand]. pinchContinues h"
    using c1 c2 by simp
  show ?thesis
    using h w p d c1 c2
      scroll_session_never_clicks[OF h w p d a, of "exampleFrame 5 4000 openHand"]
    by simp
qed

lemma detectLoop_cursor_cases:
  "cursorX (engine (detectLoop s f)) =
     (case firstHand f of
        Some lm \<Rightarrow>
          if processed s f \<and> 8 < length lm
          then cursorX s + ((1 - lm_x (lm ! 8)) * innerWidth f - cursorX s) * smoothing
          else cursorX s
      | None \<Rightarrow> cursorX s)"
  "cursorY (engine (detectLoop s f)) =
     (case firstHand f of
        Some lm \<Rightarrow>
          if processed s f \<and> 8 < length lm
          then cursorY s + (lm_y (lm ! 8) * innerHeight f - cursorY s) * smoothing
          else cursorY s
      | None \<Rightarrow> cursorY s)"
  by (simp_all add: detectLoop_cases processHand_cases schedule_def interact_cursor
      smoothCursor_cursorX smoothCursor_cursorY Let_def split: option.splits)

lemma lerp_closer:
  fixes c t :: real
  shows "\<bar>t - (c + (t - c) * smoothing)\<bar> = 0.8 * \<bar>t - c\<bar>"
proof -
  have e: "t - (c + (t - c) * smoothing) = 0.8 * (t - c)"
    unfolding smoothing_def by (simp add: field_simps)
  show ?thesis unfolding e by (simp only: abs_mult abs_numeral abs_divide)
qed

lemma lerp_between:
  fixes c t :: real
  shows "c \<le> t \<Longrightarrow> c \<le> c + (t - c) * smoothing \<and> c + (t - c) * smoothing \<le> t"
    and "t \<le> c \<Longrightarrow> t \<le> c + (t - c) * smoothing \<and> c + (t - c) * smoothing \<le> c"
  unfolding smoothing_def by (simp_all add: field_simps)

lemma detectLoop_toward:
  assumes "aimsAt f tx ty"
  shows "\<bar>tx - cursorX (engine (detectLoop s f))\<bar> \<le> \<bar>tx - cursorX s\<bar>"
    and "\<bar>ty - cursorY (engine (detectLoop s f))\<bar> \<le> \<bar>ty - cursorY s\<bar>"
    and "cursorX s \<le> tx \<Longrightarrow> cursorX (engine (detectLoop s f)) \<le> tx"
    and "tx \<le> cursorX s \<Longrightarrow> tx \<le> cursorX (engine (detectLoop s f))"
    and "cursorY s \<le> ty \<Longrightarrow> cursorY (engine (detectLoop s f)) \<le> ty"
    and "ty \<le> cursorY s \<Longrightarrow> ty \<le> cursorY (engine (detectLoop s f))"
proof -
  show "\<bar>tx - cursorX (engine (detectLoop s f))\<bar> \<le> \<bar>tx - cursorX s\<bar>"
  proof (cases "firstHand f")
    case None
    then show ?thesis by (simp add: detectLoop_cursor_cases)
  next
    case (Some lm)
    show ?thesis
    proof (cases "processed s f \<and> 8 < length lm")
      case True
      with Some assms have t: "(1 - lm_x (lm ! 8)) * innerWidth f = tx"
        by (simp add: aimsAt_def)
      have "\<bar>tx - (cursorX s + (tx - cursorX s) * smoothing)\<bar> = 0.8 * \<bar>tx - cursorX s\<bar>"
        by (rule lerp_closer)
      also have "\<dots> \<le> \<bar>tx - cursorX s\<bar>" by simp
      finally show ?thesis using Some True t by (simp add: detectLoop_cursor_cases)
    next
      case False
      with Some show ?thesis by (auto simp add: detectLoop_cursor_cases)
    qed
  qed
  show "\<bar>ty - cursorY (engine (detectLoop s f))\<bar> \<le> \<bar>ty - cursorY s\<bar>"
  proof (cases "firstHand f")
    case None
    then show ?thesis by (simp add: detectLoop_cursor_cases)
  next
    case (Some lm)
    show ?thesis
    proof (cases "processed s f \<and> 8 < length lm")
      case True
      with Some assms have t: "lm_y (lm ! 8) * innerHeight f = ty"
        by (simp add: aimsAt_def)
      have "\<bar>ty - (cursorY s + (ty - cursorY s) * smoothing)\<bar> = 0.8 * \<bar>ty - cursorY s\<bar>"
        by (rule lerp_closer)
      also have "\<dots> \<le> \<bar>ty - cursorY s\<bar>" by simp
      finally show ?thesis using Some True t by (simp add: detectLoop_cursor_cases)
    next
      case False
      with Some show ?thesis by (auto simp add: detectLoop_cursor_cases)
    qed
  qed
  show "cursorX s \<le> tx \<Longrightarrow> cursorX (engine (detectLoop s f)) \<le> tx"
    using assms lerp_between(1)[of "cursorX s" tx]
    by (auto simp add: detectLoop_cursor_cases aimsAt_def split: option.splits)
  show "tx \<le> cursorX s \<Longrightarrow> tx \<le> cursorX (engine (detectLoop s f))"
    using assms lerp_between(2)[of tx "cursorX s"]
    by (auto simp add: detectLoop_cursor_cases aimsAt_def split: option.splits)
  show "cursorY s \<le> ty \<Longrightarrow> cursorY (engine (detectLoop s f)) \<le> ty"
    using assms lerp_between(1)[of "cursorY s" ty]
    by (auto simp add: detectLoop_cursor_cases aimsAt_def split: option.splits)
  show "ty \<le> cursorY s \<Longrightarrow> ty \<le> cursorY (engine (detectLoop s f))"
    using assms lerp_between(2)[of ty "cursorY s"]
    by (auto simp add: detectLoop_cursor_cases aimsAt_def split: option.splits)
qed

lemma runFrames_snoc:
  "engine (runFrames s (fs @ [g])) =
     (case raised (runFrames s fs) of
        Some err \<Rightarrow> engine (runFrames s fs)
      | None \<Rightarrow> engine (detectLoop (engine (runFrames s fs)) g))"
  by (induction fs arbitrary: s) (simp_all add: Let_def split: option.splits)

lemma runFrames_no_overshoot:
  assumes "\<forall>h \<in> set fs. aimsAt h tx ty"
  shows "(cursorX s \<le> tx \<longrightarrow> cursorX (engine (runFrames s fs)) \<le> tx) \<and>
         (tx \<le> cursorX s \<longrightarrow> tx \<le> cursorX (engine (runFrames s fs))) \<and>
         (cursorY s \<le> ty \<longrightarrow> cursorY (engine (runFrames s fs)) \<le> ty) \<and>
         (ty \<le> cursorY s \<longrightarrow> ty \<le> cursorY (engine (runFrames s fs)))"
  using assms
proof (induction fs arbitrary: s)
  case Nil
  then show ?case by simp
next
  case (Cons f fs)
  have a: "aimsAt f tx ty" and b: "\<forall>h \<in> set fs. aimsAt h tx ty"
    using Cons.prems by simp_all
  show ?case
  proof (cases "raised (detectLoop s f)")
    case None
    then show ?thesis
      using Cons.IH[OF b, of "engine (detectLoop s f)"] detectLoop_toward(3-6)[OF a, of s]
      by (simp add: Let_def)
  next
    case (Some err)
    then show ?thesis
      using detectLoop_toward(3-6)[OF a, of s] by (simp add: Let_def)
  qed
qed

lemma handDetected_connected_at:
  "9 < length lm \<Longrightarrow> t \<noteq> - 1 \<Longrightarrow> handDetected connectedService (exampleFrame t now lm) lm"
  by (simp add: handDetected_def connectedService_def initialService_def
      firstHand_exampleFrame exampleFrame_fields)

lemma aimsAt_hand:
  assumes "handDetected s f lm" and "aimsAt f tx ty"
  shows "(1 - lm_x (lm ! 8)) * innerWidth f = tx" and "lm_y (lm ! 8) * innerHeight f = ty"
  using assms by (simp_all add: handDetected_def aimsAt_def)

text \<open>
  Claim C4. The cursor starts at the centre of the window, and every frame with a
  detected hand moves it by \<open>cursor += (target - cursor) * 0.2\<close>. So, over any run of
  frames whose hands all put the raw target at one fixed point, one more frame never
  increases the distance from the cursor to the target on either axis (a frame with
  a detected hand multiplies it by 0.8), and a cursor on one side of the target
  never passes to the other side. Coordinates are real numbers here.
\<close>

theorem smoothing_converges:
  assumes "\<forall>h \<in> set fs. aimsAt h tx ty" and "aimsAt g tx ty"
  shows "cursorX (initialService w ht) = w / 2 \<and> cursorY (initialService w ht) = ht / 2 \<and>
         (handDetected s g lm \<longrightarrow>
            cursorX (engine (detectLoop s g)) =
              cursorX s + (targetX (engine (detectLoop s g)) - cursorX s) * 0.2 \<and>
            cursorY (engine (detectLoop s g)) =
              cursorY s + (targetY (engine (detectLoop s g)) - cursorY s) * 0.2 \<and>
            \<bar>tx - cursorX (engine (detectLoop s g))\<bar> = 0.8 * \<bar>tx - cursorX s\<bar> \<and>
            \<bar>ty - cursorY (engine (detectLoop s g))\<bar> = 0.8 * \<bar>ty - cursorY s\<bar>) \<and>
         \<bar>tx - cursorX (engine (runFrames s (fs @ [g])))\<bar>
           \<le> \<bar>tx - cursorX (engine (runFrames s fs))\<bar> \<and>
         \<bar>ty - cursorY (engine (runFrames s (fs @ [g])))\<bar>
           \<le> \<bar>ty - cursorY (engine (runFrames s fs))\<bar> \<and>
         (cursorX s \<le> tx \<longrightarrow> cursorX (engine (runFrames s (fs @ [g]))) \<le> tx) \<and>
         (tx \<le> cursorX s \<longrightarrow> tx \<le> cursorX (engine (runFrames s (fs @ [g])))) \<and>
         (cursorY s \<le> ty \<longrightarrow> cursorY (engine (runFrames s (fs @ [g]))) \<le> ty) \<and>
         (ty \<le> cursorY s \<longrightarrow> ty \<le> cursorY (engine (runFrames s (fs @ [g]))))"
proof -
  have init: "cursorX (initialService w ht) = w / 2 \<and> cursorY (initialService w ht) = ht / 2"
    by (simp add: initialService_def)
  have step: "handDetected s g lm \<longrightarrow>
            cursorX (engine (detectLoop s g)) =
              cursorX s + (targetX (engine (detectLoop s g)) - cursorX s) * 0.2 \<and>
            cursorY (engine (detectLoop s g)) =
              cursorY s + (targetY (engine (detectLoop s g)) - cursorY s) * 0.2 \<and>
            \<bar>tx - cursorX (engine (detectLoop s g))\<bar> = 0.8 * \<bar>tx - cursorX s\<bar> \<and>
            \<bar>ty - cursorY (engine (detectLoop s g))\<bar> = 0.8 * \<bar>ty - cursorY s\<bar>"
  proof
    assume h: "handDetected s g lm"
    have t: "targetX (engine (detectLoop s g)) = tx" "targetY (engine (detectLoop s g)) = ty"
      using detectLoop_hand_target[OF h] aimsAt_hand[OF h assms(2)] by simp_all
    have c: "cursorX (engine (detectLoop s g)) = cursorX s + (tx - cursorX s) * smoothing"
      "cursorY (engine (detectLoop s g)) = cursorY s + (ty - cursorY s) * smoothing"
      using detectLoop_hand_cursor[OF h] aimsAt_hand[OF h assms(2)] by simp_all
    show "cursorX (engine (detectLoop s g)) =
              cursorX s + (targetX (engine (detectLoop s g)) - cursorX s) * 0.2 \<and>
            cursorY (engine (detectLoop s g)) =
              cursorY s + (targetY (engine (detectLoop s g)) - cursorY s) * 0.2 \<and>
            \<bar>tx - cursorX (engine (detectLoop s g))\<bar> = 0.8 * \<bar>tx - cursorX s\<bar> \<and>
            \<bar>ty - cursorY (engine (detectLoop s g))\<bar> = 0.8 * \<bar>ty - cursorY s\<bar>"
      unfolding t unfolding c using lerp_closer[of tx "cursorX s"] lerp_closer[of ty "cursorY s"]
      by (simp add: smoothing_def)
  qed
  have dist:
    "\<bar>tx - cursorX (engine (runFrames s (fs @ [g])))\<bar> \<le> \<bar>tx - cursorX (engine (runFrames s fs))\<bar>"
    "\<bar>ty - cursorY (engine (runFrames s (fs @ [g])))\<bar> \<le> \<bar>ty - cursorY (engine (runFrames s fs))\<bar>"
    using detectLoop_toward(1,2)[OF assms(2), of "engine (runFrames s fs)"]
    by (simp_all add: runFrames_snoc split: option.splits)
  have "\<forall>h \<in> set (fs @ [g]). aimsAt h tx ty"
    using assms by simp
  then have side:
    "(cursorX s \<le> tx \<longrightarrow> cursorX (engine (runFrames s (fs @ [g]))) \<le> tx) \<and>
     (tx \<le> cursorX s \<longrightarrow> tx \<le> cursorX (engine (runFrames s (fs @ [g])))) \<and>
     (cursorY s \<le> ty \<longrightarrow> cursorY (engine (runFrames s (fs @ [g]))) \<le> ty) \<and>
     (ty \<le> cursorY s \<longrightarrow> ty \<le> cursorY (engine (runFrames s (fs @ [g]))))"
    by (rule runFrames_no_overshoot)
  show ?thesis
    using init step dist side by blast
qed

theorem smoothing_converges_witness:
  "aimsAt (exampleFrame 1 1000 movedHand) 600 400 \<and>
   aimsAt (exampleFrame 2 1016 movedHand) 600 400 \<and>
   handDetected connectedService (exampleFrame 2 1016 movedHand) movedHand \<and>
   cursorX connectedService = 500 \<and>
   cursorX (engine (detectLoop connectedService (exampleFrame 2 1016 movedHand))) = 520 \<and>
   \<bar>600 - cursorX (engine (runFrames connectedService
                              [exampleFrame 1 1000 movedHand, exampleFrame 2 1016 movedHand]))\<bar>
     \<le> \<bar>600 - cursorX (engine (runFrames connectedService [exampleFrame 1 1000 movedHand]))\<bar> \<and>
   cursorX (engine (runFrames connectedService
                      [exampleFrame 1 1000 movedHand, exampleFrame 2 1016 movedHand])) \<le> 600"
proof -
  have a1: "aimsAt (exampleFrame 1 1000 movedHand) 600 400"
    by (simp add: aimsAt_def firstHand_exampleFrame exampleFrame_fields movedHand_def)
  have a2: "aimsAt (exampleFrame 2 1016 movedHand) 600 400"
    by (simp add: aimsAt_def firstHand_exampleFrame exampleFrame_fields movedHand_def)
  have a: "\<forall>h \<in> set [exampleFrame 1 1000 movedHand]. aimsAt h 600 400"
    using a1 by simp
  have h: "handDetected connectedService (exampleFrame 2 1016 movedHand) movedHand"
    by (rule handDetected_connected_at) (simp_all add: length_hands)
  have c: "cursorX connectedService = 500"
    by (simp add: connectedService_def initialService_def)
  have t: "targetX (engine (detectLoop connectedService (exampleFrame 2 1016 movedHand))) = 600"
    using detectLoop_hand_target(1)[OF h] by (simp add: exampleFrame_fields movedHand_def)
  let ?f1 = "exampleFrame 1 1000 movedHand" and ?f2 = "exampleFrame 2 1016 movedHand"
  note T = smoothing_converges[OF a a2, of 1000 800 connectedService movedHand]
  have x: "cursorX (engine (detectLoop connectedService ?f2)) = 520"
    using T h by (simp add: t c)
  have d: "\<bar>600 - cursorX (engine (runFrames connectedService ([?f1] @ [?f2])))\<bar>
             \<le> \<bar>600 - cursorX (engine (runFrames connectedService [?f1]))\<bar>"
    using T by blast
  have o: "cursorX (engine (runFrames connectedService ([?f1] @ [?f2]))) \<le> 600"
    using T c by simp
  show ?thesis
    using a1 a2 h c x d o by (simp del: runFrames.simps)
qed

end
